theory Spec2Isabelle
  imports Main
begin

section \<open>Values of the export snapshot\<close>

text \<open>
  \<^verbatim>\<open>convert.js\<close> works on the result of \<^verbatim>\<open>JSON.parse\<close> and never checks a type, so
  the model keeps the values dynamic, as JavaScript has them. \<open>JUndefined\<close> is what reading
  a property that an object does not have gives. A number is kept as the string that
  JavaScript's number-to-string conversion gives for it (\<open>0\<close> and \<open>-0\<close> both give \<open>0\<close>):
  the program only tests numbers for truthiness, compares them and prints them. An object
  is the list of its own properties; \<open>map_of\<close> reads the first entry of a key. Strings are
  lists of 8-bit characters: code units 0 to 255 (ISO-8859-1).
\<close>

datatype jsval =
    JUndefined
  | JNull
  | JBool bool
  | JNum string
  | JStr string
  | JArr "jsval list"
  | JObj "(string \<times> jsval) list"

text \<open>
  Every exception the converter raises on parsed JSON is a \<^verbatim>\<open>TypeError\<close>; the text of
  its message is the engine's. \<^verbatim>\<open>fs.writeFileSync\<close> raises a system error, kept here with
  its message.
\<close>

datatype error = TypeError | SystemError string

definition bind :: "error + 'a \<Rightarrow> ('a \<Rightarrow> error + 'b) \<Rightarrow> error + 'b" where
  "bind m f = (case m of Inl e \<Rightarrow> Inl e | Inr v \<Rightarrow> f v)"

text \<open>Truthiness, as \<^verbatim>\<open>if (x)\<close>, \<^verbatim>\<open>!x\<close>, \<^verbatim>\<open>x ? a : b\<close> and \<^verbatim>\<open>x && y\<close> test it.\<close>

fun truthy :: "jsval \<Rightarrow> bool" where
  "truthy JUndefined = False"
| "truthy JNull = False"
| "truthy (JBool b) = b"
| "truthy (JNum s) = (s \<noteq> ''0'')"
| "truthy (JStr s) = (s \<noteq> [])"
| "truthy (JArr xs) = True"
| "truthy (JObj kvs) = True"

text \<open>
  Property read \<^verbatim>\<open>v.k\<close> and \<^verbatim>\<open>v['k']\<close>: a \<^verbatim>\<open>TypeError\<close> on \<^verbatim>\<open>undefined\<close> and
  \<^verbatim>\<open>null\<close>, the own property of an object, and \<^verbatim>\<open>undefined\<close> otherwise. None of the
  names the converter reads below the snapshot root is a property of the string, number,
  boolean, array or object prototypes.
\<close>

fun js_get :: "jsval \<Rightarrow> string \<Rightarrow> error + jsval" where
  "js_get JUndefined k = Inl TypeError"
| "js_get JNull k = Inl TypeError"
| "js_get (JObj kvs) k = Inr (case map_of kvs k of None \<Rightarrow> JUndefined | Some v \<Rightarrow> v)"
| "js_get v k = Inr JUndefined"

text \<open>
  Strict equality \<^verbatim>\<open>a === b\<close> of two values that sit at different places of the parsed
  tree: primitives are compared by value, two objects or arrays are never the same
  reference.
\<close>

fun strict_eq :: "jsval \<Rightarrow> jsval \<Rightarrow> bool" where
  "strict_eq (JArr xs) b = False"
| "strict_eq (JObj kvs) b = False"
| "strict_eq a b = (a = b)"

fun intercalate :: "string \<Rightarrow> string list \<Rightarrow> string" where
  "intercalate sep [] = []"
| "intercalate sep [x] = x"
| "intercalate sep (x # y # ys) = x @ sep @ intercalate sep (y # ys)"

text \<open>
  String conversion, as a template literal and \<^verbatim>\<open>+\<close> with a string operand do it. An
  array prints its elements separated by commas, with \<^verbatim>\<open>undefined\<close> and \<^verbatim>\<open>null\<close>
  elements printed as nothing.
\<close>

fun js_to_string :: "jsval \<Rightarrow> string" where
  "js_to_string JUndefined = ''undefined''"
| "js_to_string JNull = ''null''"
| "js_to_string (JBool b) = (if b then ''true'' else ''false'')"
| "js_to_string (JNum s) = s"
| "js_to_string (JStr s) = s"
| "js_to_string (JArr xs) =
     intercalate '','' (map (\<lambda>x. if x = JUndefined \<or> x = JNull then [] else js_to_string x) xs)"
| "js_to_string (JObj kvs) = ''[object Object]''"

text \<open>\<^verbatim>\<open>Array.prototype.join\<close> on an array of values.\<close>

definition js_join :: "jsval list \<Rightarrow> string \<Rightarrow> string" where
  "js_join xs sep =
     intercalate sep (map (\<lambda>x. if x = JUndefined \<or> x = JNull then [] else js_to_string x) xs)"

subsection \<open>Array methods\<close>

text \<open>
  \<^verbatim>\<open>map\<close>, \<^verbatim>\<open>forEach\<close> and \<^verbatim>\<open>find\<close> pass the element and its index to the callback, in
  index order, and an exception of the callback ends the call. On a receiver that is
  not an array the call itself raises.
\<close>

fun map_from :: "nat \<Rightarrow> (jsval \<Rightarrow> nat \<Rightarrow> error + 'b) \<Rightarrow> jsval list \<Rightarrow> error + 'b list" where
  "map_from i f [] = Inr []"
| "map_from i f (x # xs) =
     (case f x i of Inl e \<Rightarrow> Inl e
      | Inr y \<Rightarrow> (case map_from (Suc i) f xs of Inl e \<Rightarrow> Inl e | Inr ys \<Rightarrow> Inr (y # ys)))"

definition array_map :: "(jsval \<Rightarrow> nat \<Rightarrow> error + 'b) \<Rightarrow> jsval \<Rightarrow> error + 'b list" where
  "array_map f v = (case v of JArr xs \<Rightarrow> map_from 0 f xs | _ \<Rightarrow> Inl TypeError)"

fun forEach_from :: "nat \<Rightarrow> (jsval \<Rightarrow> nat \<Rightarrow> 's \<Rightarrow> error + 's) \<Rightarrow> jsval list \<Rightarrow> 's \<Rightarrow> error + 's" where
  "forEach_from i f [] s = Inr s"
| "forEach_from i f (x # xs) s =
     (case f x i s of Inl e \<Rightarrow> Inl e | Inr s' \<Rightarrow> forEach_from (Suc i) f xs s')"

definition array_forEach :: "(jsval \<Rightarrow> nat \<Rightarrow> 's \<Rightarrow> error + 's) \<Rightarrow> jsval \<Rightarrow> 's \<Rightarrow> error + 's" where
  "array_forEach f v s = (case v of JArr xs \<Rightarrow> forEach_from 0 f xs s | _ \<Rightarrow> Inl TypeError)"

fun find_in :: "(jsval \<Rightarrow> error + bool) \<Rightarrow> jsval list \<Rightarrow> error + jsval" where
  "find_in p [] = Inr JUndefined"
| "find_in p (x # xs) =
     (case p x of Inl e \<Rightarrow> Inl e | Inr b \<Rightarrow> if b then Inr x else find_in p xs)"

definition array_find :: "(jsval \<Rightarrow> error + bool) \<Rightarrow> jsval \<Rightarrow> error + jsval" where
  "array_find p v = (case v of JArr xs \<Rightarrow> find_in p xs | _ \<Rightarrow> Inl TypeError)"

subsection \<open>String methods\<close>

text \<open>\<^verbatim>\<open>trim\<close> removes white space and line terminators from both ends.\<close>

definition is_space :: "char \<Rightarrow> bool" where
  "is_space c = (of_char c \<in> {9, 10, 11, 12, 13, 32, 160 :: nat})"

definition trim :: "string \<Rightarrow> string" where
  "trim s = rev (dropWhile is_space (rev (dropWhile is_space s)))"

definition startsWith :: "string \<Rightarrow> string \<Rightarrow> bool" where
  "startsWith s p = (take (length p) s = p)"

text \<open>
  \<^verbatim>\<open>toLowerCase\<close> on code units below 256: the letters A to Z and the capital letters
  of ISO-8859-1 (0xC0 to 0xDE without the multiplication sign 0xD7) move up by 32.
\<close>

definition lower_char :: "char \<Rightarrow> char" where
  "lower_char c =
     (let n = (of_char c :: nat)
      in if (65 \<le> n \<and> n \<le> 90) \<or> (192 \<le> n \<and> n \<le> 222 \<and> n \<noteq> 215) then char_of (n + 32) else c)"

definition toLowerCase :: "string \<Rightarrow> string" where
  "toLowerCase s = map lower_char s"

text \<open>Decimal digits of an array index, for \<^verbatim>\<open>${i + 1}\<close>.\<close>

fun show_nat :: "nat \<Rightarrow> string" where
  "show_nat n = (if n < 10 then [char_of (48 + n)] else show_nat (n div 10) @ [char_of (48 + n mod 10)])"

section \<open>Entity index\<close>

text \<open>\<^verbatim>\<open>data.entries.find(e => e.sys.id === id)\<close> and the same over \<^verbatim>\<open>data.assets\<close>.\<close>

definition has_id :: "jsval \<Rightarrow> jsval \<Rightarrow> error + bool" where
  "has_id ident e =
     bind (js_get e ''sys'') (\<lambda>sys.
     bind (js_get sys ''id'') (\<lambda>i.
     Inr (strict_eq i ident)))"

definition findEntry :: "jsval \<Rightarrow> jsval \<Rightarrow> error + jsval" where
  "findEntry data ident = bind (js_get data ''entries'') (array_find (has_id ident))"

definition findAsset :: "jsval \<Rightarrow> jsval \<Rightarrow> error + jsval" where
  "findAsset data ident = bind (js_get data ''assets'') (array_find (has_id ident))"

section \<open>Rich text to Markdown\<close>

lemma bind_cong [fundef_cong]:
  "m = m' \<Longrightarrow> (\<And>v. m' = Inr v \<Longrightarrow> f v = g v) \<Longrightarrow> bind m f = bind m' g"
  by (cases m') (simp_all add: bind_def)

lemma map_from_cong:
  "(\<And>x j. x \<in> set xs \<Longrightarrow> f x j = g x j) \<Longrightarrow> map_from i f xs = map_from i g xs"
  by (induction xs arbitrary: i) (simp_all split: sum.splits)

lemma array_map_cong [fundef_cong]:
  "v = v' \<Longrightarrow> (\<And>xs x j. v' = JArr xs \<Longrightarrow> x \<in> set xs \<Longrightarrow> f x j = g x j)
     \<Longrightarrow> array_map f v = array_map g v'"
  by (cases v') (auto simp: array_map_def intro: map_from_cong)

lemma forEach_from_cong:
  "(\<And>x j s. x \<in> set xs \<Longrightarrow> f x j s = g x j s) \<Longrightarrow> forEach_from i f xs s = forEach_from i g xs s"
  by (induction xs arbitrary: i s) (simp_all split: sum.splits)

lemma array_forEach_cong [fundef_cong]:
  "v = v' \<Longrightarrow> s = s' \<Longrightarrow> (\<And>xs x j t. v' = JArr xs \<Longrightarrow> x \<in> set xs \<Longrightarrow> f x j t = g x j t)
     \<Longrightarrow> array_forEach f v s = array_forEach g v' s'"
  by (cases v') (auto simp: array_forEach_def intro: forEach_from_cong)

lemma size_map_of:
  "map_of kvs k = Some v \<Longrightarrow> size v < Suc (size_list (size_prod (\<lambda>_. 0) size) kvs)"
  by (induction kvs) (auto split: if_splits)


lemma size_js_get:
  "js_get v k = Inr (JArr xs) \<Longrightarrow> x \<in> set xs \<Longrightarrow> size x < size v"
proof (cases v)
  case (JObj kvs)
  assume g: "js_get v k = Inr (JArr xs)" and x: "x \<in> set xs"
  from g JObj have "map_of kvs k = Some (JArr xs)"
    by (simp split: option.splits)
  then have "size (JArr xs) < Suc (size_list (size_prod (\<lambda>_. 0) size) kvs)"
    by (rule size_map_of)
  moreover from x have "size x < size (JArr xs)"
    by (simp add: size_list_estimation' less_Suc_eq_le)
  ultimately show ?thesis using JObj by simp
qed simp_all

lemma size_js_get3:
  assumes "js_get t k1 = Inr (JArr rows)" and "row \<in> set rows"
    and "js_get row k2 = Inr (JArr cells)" and "cell \<in> set cells"
    and "js_get cell k3 = Inr (JArr ns)" and "n \<in> set ns"
  shows "Suc (2 * size n) < 2 * size t"
proof -
  have "size n < size cell" using assms(5,6) by (rule size_js_get)
  also have "size cell < size row" using assms(3,4) by (rule size_js_get)
  also have "size row < size t" using assms(1,2) by (rule size_js_get)
  finally show ?thesis by simp
qed

text \<open>
  The callback of \<^verbatim>\<open>node.marks.forEach\<close>, with \<open>text\<close> the variable it assigns: the two
  \<^verbatim>\<open>if\<close> statements run one after the other.
\<close>

definition applyMark :: "jsval \<Rightarrow> nat \<Rightarrow> jsval \<Rightarrow> error + jsval" where
  "applyMark mark i text =
     bind (js_get mark ''type'') (\<lambda>ty.
     let text1 = (if ty = JStr ''bold'' then JStr (''**'' @ js_to_string text @ ''**'') else text);
         text2 = (if ty = JStr ''code'' then JStr (''`'' @ js_to_string text1 @ ''`'') else text1)
     in Inr text2)"

text \<open>
  \<^verbatim>\<open>processNode\<close> and \<^verbatim>\<open>processTable\<close>, the two closures of \<^verbatim>\<open>richTextToMarkdown\<close>.
  \<open>data\<close> is the parsed export that \<^verbatim>\<open>findAsset\<close> reads. The result of \<open>processNode\<close> is
  a value, not always a string: a text node without marks returns its \<^verbatim>\<open>value\<close> as it
  is.
\<close>

function processNode :: "jsval \<Rightarrow> jsval \<Rightarrow> error + jsval"
  and processTable :: "jsval \<Rightarrow> jsval \<Rightarrow> error + string"
where
  "processNode data node =
    (if \<not> truthy node then Inr (JStr [])
     else bind (js_get node ''nodeType'') (\<lambda>nodeType.
       if nodeType = JStr ''document'' then
         bind (js_get node ''content'') (\<lambda>content.
         bind (array_map (\<lambda>n i. processNode data n) content) (\<lambda>rs.
         Inr (JStr (js_join rs ''\<newline>\<newline>''))))
       else if nodeType = JStr ''paragraph'' then
         bind (js_get node ''content'') (\<lambda>content.
         bind (array_map (\<lambda>n i. processNode data n) content) (\<lambda>rs.
         Inr (JStr (js_join rs []))))
       else if nodeType = JStr ''heading-2'' then
         bind (js_get node ''content'') (\<lambda>content.
         bind (array_map (\<lambda>n i. processNode data n) content) (\<lambda>rs.
         Inr (JStr (''## '' @ js_join rs []))))
       else if nodeType = JStr ''heading-3'' then
         bind (js_get node ''content'') (\<lambda>content.
         bind (array_map (\<lambda>n i. processNode data n) content) (\<lambda>rs.
         Inr (JStr (''### '' @ js_join rs []))))
       else if nodeType = JStr ''unordered-list'' then
         bind (js_get node ''content'') (\<lambda>content.
         bind (array_map (\<lambda>item i.
                 bind (processNode data item) (\<lambda>r. Inr (JStr (''- '' @ js_to_string r)))) content) (\<lambda>rs.
         Inr (JStr (js_join rs ''\<newline>''))))
       else if nodeType = JStr ''ordered-list'' then
         bind (js_get node ''content'') (\<lambda>content.
         bind (array_map (\<lambda>item i.
                 bind (processNode data item) (\<lambda>r.
                 Inr (JStr (show_nat (i + 1) @ ''. '' @ js_to_string r)))) content) (\<lambda>rs.
         Inr (JStr (js_join rs ''\<newline>''))))
       else if nodeType = JStr ''list-item'' then
         bind (js_get node ''content'') (\<lambda>content.
         bind (array_map (\<lambda>n i. processNode data n) content) (\<lambda>rs.
         Inr (JStr (js_join rs []))))
       else if nodeType = JStr ''hyperlink'' then
         bind (js_get node ''content'') (\<lambda>content.
         bind (array_map (\<lambda>n i. processNode data n) content) (\<lambda>rs.
         let linkText = js_join rs [] in
         bind (js_get node ''data'') (\<lambda>d.
         bind (js_get d ''uri'') (\<lambda>uri.
         Inr (JStr (''['' @ linkText @ '']('' @ js_to_string uri @ '')''))))))
       else if nodeType = JStr ''embedded-asset-block'' then
         bind (js_get node ''data'') (\<lambda>d.
         bind (js_get d ''target'') (\<lambda>target.
         bind (js_get target ''sys'') (\<lambda>sys.
         bind (js_get sys ''id'') (\<lambda>ident.
         bind (findAsset data ident) (\<lambda>asset.
         if \<not> truthy asset then Inr (JStr [])
         else
           bind (js_get asset ''fields'') (\<lambda>fields.
           bind (js_get fields ''file'') (\<lambda>file.
           if \<not> truthy file then Inr (JStr [])
           else
             bind (js_get file ''en-US'') (\<lambda>loc.
             bind (js_get loc ''url'') (\<lambda>url.
             bind (js_get fields ''title'') (\<lambda>ft.
             bind (if truthy ft then js_get ft ''en-US'' else Inr (JStr [])) (\<lambda>title.
             case url of
               JStr u \<Rightarrow>
                 Inr (JStr (''\<newline>\<newline>!['' @ js_to_string title @ '']('' @
                            (if startsWith u ''//'' then ''https:'' @ u else u) @ '')\<newline>\<newline>''))
             | _ \<Rightarrow> Inl TypeError)))))))))))
       else if nodeType = JStr ''text'' then
         bind (js_get node ''value'') (\<lambda>val.
         bind (js_get node ''marks'') (\<lambda>marks.
         if truthy marks then
           array_forEach applyMark marks val
         else Inr val))
       else if nodeType = JStr ''table'' then
         bind (processTable data node) (\<lambda>t.
         Inr (JStr (''\<newline>\<newline>'' @ t @ ''\<newline>\<newline>'')))
       else
         bind (js_get node ''content'') (\<lambda>content.
         if truthy content then
           bind (array_map (\<lambda>n i. processNode data n) content) (\<lambda>rs.
           Inr (JStr (js_join rs [])))
         else Inr (JStr []))))"
| "processTable data tableNode =
     bind (js_get tableNode ''content'') (\<lambda>rows.
     array_forEach (\<lambda>row rowIndex markdown.
       bind (js_get row ''content'') (\<lambda>rowContent.
       bind (array_map (\<lambda>cell j.
               bind (js_get cell ''content'') (\<lambda>cellContent.
               bind (array_map (\<lambda>n i. processNode data n) cellContent) (\<lambda>rs.
               Inr (trim (js_join rs []))))) rowContent) (\<lambda>cells.
       let markdown1 = markdown @ ''| '' @ intercalate '' | '' cells @ '' |\<newline>''
       in Inr (if rowIndex = 0
               then markdown1 @ ''| '' @ intercalate '' | '' (map (\<lambda>c. ''---'') cells) @ '' |\<newline>''
               else markdown1)))) rows [])"
  by pat_completeness auto
termination
proof (relation "measure (\<lambda>x. case x of Inl (d, n) \<Rightarrow> 2 * size n + 1 | Inr (d, n) \<Rightarrow> 2 * size n)",
       goal_cases)
  case (12 data tableNode rows row rowIndex markdown rowContent cell j cellContent n i)
  then show ?case by (simp add: size_js_get3)
qed (simp_all add: size_js_get)

declare processNode.simps [simp del] processTable.simps [simp del]

text \<open>\<^verbatim>\<open>richTextToMarkdown\<close>: the guard on the argument, then \<^verbatim>\<open>processNode\<close>.\<close>

definition richTextToMarkdown :: "jsval \<Rightarrow> jsval \<Rightarrow> error + jsval" where
  "richTextToMarkdown data content =
     (if \<not> truthy content then Inr (JStr [])
      else bind (js_get content ''content'') (\<lambda>c.
        if \<not> truthy c then Inr (JStr []) else processNode data content))"

section \<open>Pages\<close>

subsection \<open>File name\<close>

definition is_alnum :: "char \<Rightarrow> bool" where
  "is_alnum c = (let n = (of_char c :: nat) in (97 \<le> n \<and> n \<le> 122) \<or> (48 \<le> n \<and> n \<le> 57))"

text \<open>
  \<^verbatim>\<open>.replace(/[^a-z0-9]+/g, '-')\<close>: scanning from the left, a character outside the class
  starts a match, which takes every following character outside the class.
\<close>

function replace_runs :: "string \<Rightarrow> string" where
  "replace_runs [] = []"
| "replace_runs (c # cs) =
     (if is_alnum c then c # replace_runs cs
      else CHR ''-'' # replace_runs (dropWhile (\<lambda>d. \<not> is_alnum d) cs))"
  by pat_completeness auto
termination
  by (relation "measure length") (auto simp: length_dropWhile_le less_Suc_eq_le)

text \<open>
  \<^verbatim>\<open>.replace(/^-|-$/g, '')\<close>: scanning from the left, a hyphen matches where it is the
  first character of the string or the last one.
\<close>

fun strip_from :: "bool \<Rightarrow> string \<Rightarrow> string" where
  "strip_from at_start [] = []"
| "strip_from at_start (c # cs) =
     (if c = CHR ''-'' \<and> (at_start \<or> cs = []) then strip_from False cs
      else c # strip_from False cs)"

definition derive_filename :: "string \<Rightarrow> string" where
  "derive_filename title = strip_from True (replace_runs (toLowerCase title)) @ ''.mdx''"

subsection \<open>One page\<close>

text \<open>The callback of \<^verbatim>\<open>contentRefs.forEach\<close>; \<open>markdown\<close> is the document so far.\<close>

definition appendBlock :: "jsval \<Rightarrow> jsval \<Rightarrow> nat \<Rightarrow> string \<Rightarrow> error + string" where
  "appendBlock data ref i markdown =
     bind (js_get ref ''sys'') (\<lambda>sys.
     bind (js_get sys ''id'') (\<lambda>ident.
     bind (findEntry data ident) (\<lambda>block.
     bind (if truthy block then js_get block ''fields'' else Inr block) (\<lambda>blockFields.
     if truthy blockFields then
       bind (js_get blockFields ''title'') (\<lambda>bt.
       bind (if truthy bt then js_get bt ''en-US'' else Inr bt) (\<lambda>btv.
       let markdown1 = (if truthy btv
                        then markdown @ ''### '' @ js_to_string btv @ ''\<newline>\<newline>''
                        else markdown) in
       bind (js_get blockFields ''content'') (\<lambda>bc.
       bind (if truthy bc then js_get bc ''en-US'' else Inr bc) (\<lambda>bcv.
       if truthy bcv then
         bind (richTextToMarkdown data bcv) (\<lambda>r.
         Inr (markdown1 @ js_to_string r @ ''\<newline>\<newline>''))
       else Inr markdown1))))
     else Inr markdown))))"

text \<open>
  The body of the \<^verbatim>\<open>try\<close> block up to the call of \<^verbatim>\<open>writeFileSync\<close>: the title, the
  file name and the document of one page, or the exception raised on the way.
\<close>

definition assemblePage :: "jsval \<Rightarrow> jsval \<Rightarrow> error + (string \<times> string \<times> string)" where
  \<open>assemblePage data page =
     bind (js_get page ''fields'') (\<lambda>fields.
     bind (js_get fields ''title'') (\<lambda>ft.
     bind (if truthy ft then js_get ft ''en-US'' else Inr (JStr ''Untitled'')) (\<lambda>title.
     bind (js_get fields ''description'') (\<lambda>fd.
     bind (if truthy fd then js_get fd ''en-US'' else Inr (JStr [])) (\<lambda>description.
     let markdown0 = ''---\<newline>title: "'' @ js_to_string title @ ''"\<newline>'';
         markdown1 = (if truthy description
                      then markdown0 @ ''description: "'' @ js_to_string description @ ''"\<newline>''
                      else markdown0);
         markdown2 = markdown1 @ ''---\<newline>\<newline>'';
         markdown3 = markdown2 @ ''# '' @ js_to_string title @ ''\<newline>\<newline>'';
         markdown4 = (if truthy description
                      then markdown3 @ js_to_string description @ ''\<newline>\<newline>''
                      else markdown3) in
     bind (js_get fields ''content'') (\<lambda>fc.
     bind (if truthy fc then js_get fc ''en-US'' else Inr fc) (\<lambda>contentRefs.
     bind (if truthy contentRefs then array_forEach (appendBlock data) contentRefs markdown4
           else Inr markdown4) (\<lambda>markdown.
     case title of
       JStr t \<Rightarrow> Inr (t, derive_filename t, markdown)
     | _ \<Rightarrow> Inl TypeError))))))))\<close>

subsection \<open>The batch\<close>

text \<open>
  The output directory as a map from file name to content, and the console as the list
  of lines printed. \<^verbatim>\<open>fs.writeFileSync\<close> belongs to the platform: it is a parameter of the
  model, a function that takes the directory, the name of the file under the output
  directory and the content, and returns the directory with the file written or the
  error it raises. The error line holds the error caught, whose message
  \<^verbatim>\<open>console.error\<close> prints after the index.
\<close>

type_synonym directory = "string \<rightharpoonup> string"

type_synonym writer = "directory \<Rightarrow> string \<Rightarrow> string \<Rightarrow> error + directory"

datatype line =
    Found nat
  | Converted string string
  | ErrorConverting nat error
  | Done nat

record state =
  files :: directory
  console :: "line list"

text \<open>
  The \<^verbatim>\<open>try\<close> block of the callback of \<^verbatim>\<open>pages.forEach\<close>: the assembly of the page, then
  the write of its file. It returns the title, the file name and the directory after
  the write, or the exception that the \<^verbatim>\<open>catch\<close> receives.
\<close>

definition tryPage :: "jsval \<Rightarrow> writer \<Rightarrow> directory \<Rightarrow> jsval \<Rightarrow> error + (string \<times> string \<times> directory)" where
  "tryPage data writeFileSync dir page =
     bind (assemblePage data page) (\<lambda>(title, filename, markdown).
     bind (writeFileSync dir filename markdown) (\<lambda>dir'.
     Inr (title, filename, dir')))"

text \<open>The callback itself: the success line after the \<^verbatim>\<open>try\<close> block, the error line in the \<^verbatim>\<open>catch\<close>.\<close>

definition convertPage :: "jsval \<Rightarrow> writer \<Rightarrow> jsval \<Rightarrow> nat \<Rightarrow> state \<Rightarrow> state" where
  "convertPage data writeFileSync page index st =
     (case tryPage data writeFileSync (files st) page of
        Inl e \<Rightarrow> st\<lparr>console := console st @ [ErrorConverting index e]\<rparr>
      | Inr (title, filename, dir') \<Rightarrow>
          st\<lparr>files := dir', console := console st @ [Converted title filename]\<rparr>)"

fun convertPages :: "jsval \<Rightarrow> writer \<Rightarrow> nat \<Rightarrow> jsval list \<Rightarrow> state \<Rightarrow> state" where
  "convertPages data writeFileSync index [] st = st"
| "convertPages data writeFileSync index (page # pages) st =
     convertPages data writeFileSync (Suc index) pages (convertPage data writeFileSync page index st)"

text \<open>\<^verbatim>\<open>data.entries.filter(e => e.sys.contentType.sys.id === 'page')\<close>.\<close>

definition isPage :: "jsval \<Rightarrow> error + bool" where
  "isPage e =
     bind (js_get e ''sys'') (\<lambda>sys.
     bind (js_get sys ''contentType'') (\<lambda>ct.
     bind (js_get ct ''sys'') (\<lambda>ctsys.
     bind (js_get ctsys ''id'') (\<lambda>i.
     Inr (i = JStr ''page'')))))"

fun filter_in :: "(jsval \<Rightarrow> error + bool) \<Rightarrow> jsval list \<Rightarrow> error + jsval list" where
  "filter_in p [] = Inr []"
| "filter_in p (x # xs) =
     (case p x of Inl e \<Rightarrow> Inl e
      | Inr b \<Rightarrow> (case filter_in p xs of Inl e \<Rightarrow> Inl e
                  | Inr ys \<Rightarrow> Inr (if b then x # ys else ys)))"

definition array_filter :: "(jsval \<Rightarrow> error + bool) \<Rightarrow> jsval \<Rightarrow> error + jsval list" where
  "array_filter p v = (case v of JArr xs \<Rightarrow> filter_in p xs | _ \<Rightarrow> Inl TypeError)"

definition selectPages :: "jsval \<Rightarrow> error + jsval list" where
  "selectPages data = bind (js_get data ''entries'') (array_filter isPage)"

text \<open>
  The script from the selection of the pages on: an exception there ends the run before
  any page is converted. \<open>dir\<close> is the output directory at the start.
\<close>

definition run :: "jsval \<Rightarrow> writer \<Rightarrow> directory \<Rightarrow> error + state" where
  "run data writeFileSync dir =
     bind (selectPages data) (\<lambda>pages.
     let st = convertPages data writeFileSync 0 pages
                \<lparr>files = dir, console = [Found (length pages)]\<rparr>
     in Inr (st\<lparr>console := console st @ [Done (length pages)]\<rparr>))"

section \<open>Properties\<close>

subsection \<open>Basic facts\<close>

lemma bind_Inr [simp]: "bind (Inr v) f = f v"
  by (simp add: bind_def)

lemma bind_Inl [simp]: "bind (Inl e) f = Inl e"
  by (simp add: bind_def)

lemma js_get_truthy: "js_get v k = Inr w \<Longrightarrow> w \<noteq> JUndefined \<Longrightarrow> truthy v"
  by (cases v) auto

lemma js_get_defined: "v \<noteq> JUndefined \<Longrightarrow> v \<noteq> JNull \<Longrightarrow> \<exists>w. js_get v k = Inr w"
  by (cases v) auto

subsection \<open>Text nodes\<close>

lemma processNode_text:
  assumes "js_get node ''nodeType'' = Inr (JStr ''text'')"
  shows "processNode data node =
           bind (js_get node ''value'') (\<lambda>val.
           bind (js_get node ''marks'') (\<lambda>marks.
           if truthy marks then array_forEach applyMark marks val else Inr val))"
proof -
  have "truthy node" using assms by (rule js_get_truthy) simp
  then show ?thesis using assms by (subst processNode.simps) simp
qed

text \<open>
  The wrap of one mark as the specification words it: \<open>bold\<close> wraps in two asterisks,
  \<open>code\<close> in backticks, any other mark changes nothing.
\<close>

definition mark_type :: "jsval \<Rightarrow> jsval" where
  "mark_type m = (case js_get m ''type'' of Inl e \<Rightarrow> JUndefined | Inr t \<Rightarrow> t)"

definition wrap_mark :: "jsval \<Rightarrow> string \<Rightarrow> string" where
  "wrap_mark m s =
     (if mark_type m = JStr ''bold'' then ''**'' @ s @ ''**''
      else if mark_type m = JStr ''code'' then ''`'' @ s @ ''`''
      else s)"

lemma applyMark_wrap:
  assumes "m \<noteq> JUndefined" and "m \<noteq> JNull"
  shows "applyMark m i (JStr s) = Inr (JStr (wrap_mark m s))"
proof -
  obtain t where "js_get m ''type'' = Inr t"
    using assms js_get_defined by blast
  then show ?thesis
    by (simp add: applyMark_def wrap_mark_def mark_type_def Let_def)
qed

lemma forEach_applyMark:
  "\<forall>m\<in>set ms. m \<noteq> JUndefined \<and> m \<noteq> JNull \<Longrightarrow>
     forEach_from i applyMark ms (JStr s) = Inr (JStr (foldl (\<lambda>t m. wrap_mark m t) s ms))"
proof (induction ms arbitrary: i s)
  case Nil
  show ?case by simp
next
  case (Cons m ms)
  then have "applyMark m i (JStr s) = Inr (JStr (wrap_mark m s))"
    by (simp add: applyMark_wrap)
  with Cons show ?case by simp
qed

text \<open>
  C1. A text node renders as its literal value with the marks applied as wraps in the
  order of the node's list, each around the result so far: bold adds two asterisks on
  each side, code a backtick on each side, a mark of another type nothing. The marks are
  the array under \<^verbatim>\<open>marks\<close>, or none when the node has no marks.
\<close>

theorem text_marks_wrap_in_listed_order:
  assumes "js_get node ''nodeType'' = Inr (JStr ''text'')"
    and "js_get node ''value'' = Inr (JStr v)"
    and "js_get node ''marks'' = Inr marks"
    and "marks = JArr ms \<or> (\<not> truthy marks \<and> ms = [])"
    and "\<forall>m\<in>set ms. m \<noteq> JUndefined \<and> m \<noteq> JNull"
  shows "processNode data node = Inr (JStr (foldl (\<lambda>t m. wrap_mark m t) v ms))"
proof -
  from assms(4) show ?thesis
  proof
    assume "marks = JArr ms"
    with assms(1,2,3,5) show ?thesis
      by (simp add: processNode_text array_forEach_def forEach_applyMark)
  next
    assume "\<not> truthy marks \<and> ms = []"
    with assms(1,2,3) show ?thesis
      by (simp add: processNode_text)
  qed
qed

theorem text_marks_wrap_in_listed_order_witness:
  "processNode (JObj [])
     (JObj [(''nodeType'', JStr ''text''), (''value'', JStr ''hi''),
            (''marks'', JArr [JObj [(''type'', JStr ''code'')],
                              JObj [(''type'', JStr ''italic'')],
                              JObj [(''type'', JStr ''bold'')]])])
   = Inr (JStr ''**`hi`**'')"
  using text_marks_wrap_in_listed_order
    [of "JObj [(''nodeType'', JStr ''text''), (''value'', JStr ''hi''),
               (''marks'', JArr [JObj [(''type'', JStr ''code'')],
                                 JObj [(''type'', JStr ''italic'')],
                                 JObj [(''type'', JStr ''bold'')]])]"
        "''hi''"
        "JArr [JObj [(''type'', JStr ''code'')], JObj [(''type'', JStr ''italic'')],
               JObj [(''type'', JStr ''bold'')]]"
        "[JObj [(''type'', JStr ''code'')], JObj [(''type'', JStr ''italic'')],
          JObj [(''type'', JStr ''bold'')]]"
        "JObj []"]
  by (simp add: wrap_mark_def mark_type_def)

text \<open>
  C2, as amended. A text node with value \<open>v\<close> renders as \<open>v\<close> between two asterisks on
  each side when its only mark is bold, and as \<open>v\<close> between backticks when its only mark
  is code. With the marks bold, code in that order the bold wrap is applied first and
  is the inner one: the result is a backtick, two asterisks, \<open>v\<close>, two asterisks, a
  backtick.
\<close>

theorem text_bold_code_cases:
  assumes "js_get node ''nodeType'' = Inr (JStr ''text'')"
    and "js_get node ''value'' = Inr (JStr v)"
    and "js_get b ''type'' = Inr (JStr ''bold'')"
    and "js_get c ''type'' = Inr (JStr ''code'')"
  shows "(js_get node ''marks'' = Inr (JArr [b]) \<longrightarrow>
            processNode data node = Inr (JStr (''**'' @ v @ ''**'')))
       \<and> (js_get node ''marks'' = Inr (JArr [c]) \<longrightarrow>
            processNode data node = Inr (JStr (''`'' @ v @ ''`'')))
       \<and> (js_get node ''marks'' = Inr (JArr [b, c]) \<longrightarrow>
            processNode data node = Inr (JStr (''`**'' @ v @ ''**`'')))"
  using assms
  by (simp add: processNode_text array_forEach_def applyMark_def)

theorem text_bold_code_cases_witness:
  "processNode (JObj [])
     (JObj [(''nodeType'', JStr ''text''), (''value'', JStr ''v''),
            (''marks'', JArr [JObj [(''type'', JStr ''bold'')], JObj [(''type'', JStr ''code'')]])])
   = Inr (JStr ''`**v**`'')"
  using text_bold_code_cases
    [of "JObj [(''nodeType'', JStr ''text''), (''value'', JStr ''v''),
               (''marks'', JArr [JObj [(''type'', JStr ''bold'')], JObj [(''type'', JStr ''code'')]])]"
        "''v''" "JObj [(''type'', JStr ''bold'')]" "JObj [(''type'', JStr ''code'')]" "JObj []"]
  by simp

text \<open>
  C2 as it was stated asks for the backticks inside the asterisks when the marks are
  bold, code in that order. For the value \<open>v\<close> the node renders otherwise.
\<close>

theorem text_bold_then_code_counterexample:
  "processNode (JObj [])
     (JObj [(''nodeType'', JStr ''text''), (''value'', JStr ''v''),
            (''marks'', JArr [JObj [(''type'', JStr ''bold'')], JObj [(''type'', JStr ''code'')]])])
   \<noteq> Inr (JStr ''**`v`**'')"
  by (simp add: processNode_text array_forEach_def applyMark_def)

subsection \<open>File names\<close>

text \<open>
  The derivation as the specification words it: lower case, every character that is not
  a letter or a digit becomes a hyphen, every run of hyphens shrinks to one hyphen, the
  hyphens at both ends go, and the extension follows.
\<close>

definition hyphenate :: "char \<Rightarrow> char" where
  "hyphenate c = (if is_alnum c then c else CHR ''-'')"

fun squeeze :: "string \<Rightarrow> string" where
  "squeeze (a # b # cs) =
     (if a = CHR ''-'' \<and> b = CHR ''-'' then squeeze (b # cs) else a # squeeze (b # cs))"
| "squeeze cs = cs"

definition strip_hyphens :: "string \<Rightarrow> string" where
  "strip_hyphens s =
     rev (dropWhile (\<lambda>c. c = CHR ''-'') (rev (dropWhile (\<lambda>c. c = CHR ''-'') s)))"

definition spec_filename :: "string \<Rightarrow> string" where
  "spec_filename title = strip_hyphens (squeeze (map hyphenate (toLowerCase title))) @ ''.mdx''"

text \<open>A symbol is a character that is neither an ASCII letter nor a digit.\<close>

definition is_symbol :: "char \<Rightarrow> bool" where
  "is_symbol c =
     (let n = (of_char c :: nat)
      in \<not> ((65 \<le> n \<and> n \<le> 90) \<or> (97 \<le> n \<and> n \<le> 122) \<or> (48 \<le> n \<and> n \<le> 57)))"

fun no_double_hyphen :: "string \<Rightarrow> bool" where
  "no_double_hyphen (a # b # cs) = (\<not> (a = CHR ''-'' \<and> b = CHR ''-'') \<and> no_double_hyphen (b # cs))"
| "no_double_hyphen cs = True"

lemma hyphen_not_alnum: "\<not> is_alnum CHR ''-''"
  by (simp add: is_alnum_def)

lemma squeeze_Cons_other: "a \<noteq> CHR ''-'' \<Longrightarrow> squeeze (a # cs) = a # squeeze cs"
  by (cases cs) simp_all

lemma squeeze_hyphen_run:
  "squeeze (CHR ''-'' # map hyphenate cs) =
     CHR ''-'' # squeeze (map hyphenate (dropWhile (\<lambda>d. \<not> is_alnum d) cs))"
proof (induction cs)
  case Nil
  show ?case by simp
next
  case (Cons d ds)
  show ?case
  proof (cases "is_alnum d")
    case True
    then have "d \<noteq> CHR ''-''" using hyphen_not_alnum by auto
    with True show ?thesis by (simp add: hyphenate_def)
  next
    case False
    with Cons show ?thesis by (simp add: hyphenate_def)
  qed
qed

lemma replace_runs_squeeze: "replace_runs s = squeeze (map hyphenate s)"
proof (induction s rule: replace_runs.induct)
  case 1
  show ?case by simp
next
  case (2 c cs)
  show ?case
  proof (cases "is_alnum c")
    case True
    then have "c \<noteq> CHR ''-''" using hyphen_not_alnum by auto
    moreover from True have "hyphenate c = c" by (simp add: hyphenate_def)
    ultimately show ?thesis using True 2 by (simp add: squeeze_Cons_other)
  next
    case False
    then have "hyphenate c = CHR ''-''" by (simp add: hyphenate_def)
    with False 2 show ?thesis by (simp add: squeeze_hyphen_run)
  qed
qed

lemma squeeze_head: "\<exists>r. squeeze (a # cs) = a # r"
proof (induction cs arbitrary: a)
  case Nil
  show ?case by simp
next
  case (Cons b cs)
  then show ?case by (cases "a = CHR ''-'' \<and> b = CHR ''-''") auto
qed

lemma no_double_hyphen_squeeze: "no_double_hyphen (squeeze s)"
proof (induction s rule: squeeze.induct)
  case (1 a b cs)
  show ?case
  proof (cases "a = CHR ''-'' \<and> b = CHR ''-''")
    case True
    with 1 show ?thesis by simp
  next
    case False
    obtain r where r: "squeeze (b # cs) = b # r" using squeeze_head by blast
    with False 1 show ?thesis by auto
  qed
qed simp_all

lemma strip_end_Cons:
  "rev (dropWhile P (rev (x # xs))) =
     (if P x \<and> rev (dropWhile P (rev xs)) = [] then [] else x # rev (dropWhile P (rev xs)))"
proof (cases "\<forall>y\<in>set xs. P y")
  case True
  then have "dropWhile P (rev xs @ [x]) = dropWhile P [x]"
    by (intro dropWhile_append2) simp
  moreover from True have "dropWhile P (rev xs) = []" by simp
  ultimately show ?thesis by simp
next
  case False
  then obtain y where "y \<in> set (rev xs)" "\<not> P y" by auto
  then have "dropWhile P (rev xs @ [x]) = dropWhile P (rev xs) @ [x]"
    by (rule dropWhile_append1)
  moreover from False have "dropWhile P (rev xs) \<noteq> []"
    by (simp add: dropWhile_eq_Nil_conv)
  ultimately show ?thesis by simp
qed

lemma strip_from_end:
  "no_double_hyphen s \<Longrightarrow>
     strip_from False s = rev (dropWhile (\<lambda>c. c = CHR ''-'') (rev s))"
proof (induction s rule: no_double_hyphen.induct)
  case (1 a b cs)
  then have ih: "strip_from False (b # cs) = rev (dropWhile (\<lambda>c. c = CHR ''-'') (rev (b # cs)))"
    by simp
  have ne: "a = CHR ''-'' \<Longrightarrow> rev (dropWhile (\<lambda>c. c = CHR ''-'') (rev (b # cs))) \<noteq> []"
  proof -
    assume "a = CHR ''-''"
    with 1(2) have "b \<noteq> CHR ''-''" by simp
    then show ?thesis by (subst strip_end_Cons) simp
  qed
  show ?case
    by (subst strip_end_Cons) (use ih ne in auto)
qed simp_all

lemma strip_from_strip_hyphens:
  assumes "no_double_hyphen s"
  shows "strip_from True s = strip_hyphens s"
proof (cases s)
  case Nil
  then show ?thesis by (simp add: strip_hyphens_def)
next
  case (Cons c cs)
  have cs: "no_double_hyphen cs" using assms Cons by (cases cs) simp_all
  show ?thesis
  proof (cases "c = CHR ''-''")
    case True
    have "dropWhile (\<lambda>c. c = CHR ''-'') cs = cs"
      using assms Cons True by (cases cs) simp_all
    with True Cons cs show ?thesis
      by (simp add: strip_hyphens_def strip_from_end)
  next
    case False
    have "strip_from True s = strip_from False s" using Cons False by simp
    also have "\<dots> = rev (dropWhile (\<lambda>c. c = CHR ''-'') (rev s))"
      using assms by (rule strip_from_end)
    also have "\<dots> = strip_hyphens s"
      using Cons False by (simp add: strip_hyphens_def)
    finally show ?thesis .
  qed
qed

lemma derive_filename_spec: "derive_filename title = spec_filename title"
  by (simp add: derive_filename_def spec_filename_def replace_runs_squeeze
      strip_from_strip_hyphens no_double_hyphen_squeeze)

lemma symbol_not_alnum: "is_symbol c \<Longrightarrow> \<not> is_alnum (lower_char c)"
  by (auto simp: is_symbol_def is_alnum_def lower_char_def Let_def)

lemma replace_runs_symbols:
  assumes "\<forall>c\<in>set s. \<not> is_alnum c"
  shows "replace_runs s = (if s = [] then [] else ''-'')"
proof (cases s)
  case Nil
  then show ?thesis by simp
next
  case (Cons c cs)
  from assms Cons have c: "\<not> is_alnum c" by simp
  have dw: "dropWhile (\<lambda>d. \<not> is_alnum d) cs = []" using assms Cons by simp
  have "replace_runs (c # cs) = CHR ''-'' # replace_runs []"
    by (subst replace_runs.simps) (simp only: c dw if_False)
  then show ?thesis using Cons by simp
qed

lemma derive_filename_symbols:
  assumes "\<forall>c\<in>set title. is_symbol c"
  shows "derive_filename title = ''.mdx''"
proof -
  have "\<forall>c\<in>set (toLowerCase title). \<not> is_alnum c"
    using assms by (auto simp: toLowerCase_def symbol_not_alnum)
  then have "replace_runs (toLowerCase title) = (if toLowerCase title = [] then [] else ''-'')"
    by (rule replace_runs_symbols)
  then show ?thesis by (simp add: derive_filename_def)
qed

lemma derive_filename_example: "derive_filename ''Hello, World!  2024'' = ''hello-world-2024.mdx''"
  by code_simp

text \<open>
  C7. The file name of a title is the title in lower case, with every maximal run of
  characters other than letters and digits replaced by one hyphen, the hyphens at the
  two ends removed, and \<open>.mdx\<close> appended. The title \<open>Hello, World!  2024\<close> gives
  \<open>hello-world-2024.mdx\<close>, and a title of symbols only gives \<open>.mdx\<close>.
\<close>

theorem filename_from_title:
  "derive_filename title = spec_filename title
   \<and> derive_filename ''Hello, World!  2024'' = ''hello-world-2024.mdx''
   \<and> ((\<forall>c\<in>set title. is_symbol c) \<longrightarrow> derive_filename title = ''.mdx'')"
  using derive_filename_spec derive_filename_symbols derive_filename_example by blast

theorem filename_from_title_witness:
  "derive_filename ''?!, #'' = spec_filename ''?!, #'' \<and> derive_filename ''?!, #'' = ''.mdx''"
proof -
  have "\<forall>c\<in>set ''?!, #''. is_symbol c" by (simp add: is_symbol_def)
  then show ?thesis using filename_from_title [of "''?!, #''"] by blast
qed

subsection \<open>Embedded assets\<close>

text \<open>The asset id an embedded-asset-block refers to: \<^verbatim>\<open>node.data.target.sys.id\<close>.\<close>

definition asset_ref :: "jsval \<Rightarrow> error + jsval" where
  "asset_ref node =
     bind (js_get node ''data'') (\<lambda>d.
     bind (js_get d ''target'') (\<lambda>target.
     bind (js_get target ''sys'') (\<lambda>sys.
     js_get sys ''id'')))"

lemma bind_eq_Inr: "bind m f = Inr r \<longleftrightarrow> (\<exists>v. m = Inr v \<and> f v = Inr r)"
  by (cases m) simp_all

lemma find_in_none: "\<forall>x\<in>set xs. p x = Inr False \<Longrightarrow> find_in p xs = Inr JUndefined"
  by (induction xs) simp_all

lemma findAsset_none:
  "js_get data ''assets'' = Inr (JArr assets) \<Longrightarrow> \<forall>a\<in>set assets. has_id ident a = Inr False
     \<Longrightarrow> findAsset data ident = Inr JUndefined"
  by (simp add: findAsset_def array_find_def find_in_none)

lemma processNode_asset:
  assumes "js_get node ''nodeType'' = Inr (JStr ''embedded-asset-block'')"
    and "asset_ref node = Inr ident"
  shows "processNode data node =
           bind (findAsset data ident) (\<lambda>asset.
           if \<not> truthy asset then Inr (JStr [])
           else
             bind (js_get asset ''fields'') (\<lambda>fields.
             bind (js_get fields ''file'') (\<lambda>file.
             if \<not> truthy file then Inr (JStr [])
             else
               bind (js_get file ''en-US'') (\<lambda>loc.
               bind (js_get loc ''url'') (\<lambda>url.
               bind (js_get fields ''title'') (\<lambda>ft.
               bind (if truthy ft then js_get ft ''en-US'' else Inr (JStr [])) (\<lambda>title.
               case url of
                 JStr u \<Rightarrow>
                   Inr (JStr (''\<newline>\<newline>!['' @ js_to_string title @ '']('' @
                              (if startsWith u ''//'' then ''https:'' @ u else u) @ '')\<newline>\<newline>''))
               | _ \<Rightarrow> Inl TypeError)))))))"
proof -
  have t: "truthy node" using assms(1) by (rule js_get_truthy) simp
  from assms(2) obtain d target sys where
    "js_get node ''data'' = Inr d" "js_get d ''target'' = Inr target"
    "js_get target ''sys'' = Inr sys" "js_get sys ''id'' = Inr ident"
    by (auto simp: asset_ref_def bind_eq_Inr)
  with t assms(1) show ?thesis by (subst processNode.simps) simp
qed

lemma asset_missing:
  assumes "js_get node ''nodeType'' = Inr (JStr ''embedded-asset-block'')"
    and "asset_ref node = Inr ident"
    and "findAsset data ident = Inr JUndefined"
  shows "processNode data node = Inr (JStr [])"
  using assms by (simp add: processNode_asset)

lemma asset_without_file:
  assumes "js_get node ''nodeType'' = Inr (JStr ''embedded-asset-block'')"
    and "asset_ref node = Inr ident"
    and "findAsset data ident = Inr asset"
    and "js_get asset ''fields'' = Inr flds"
    and "js_get flds ''file'' = Inr fdesc" and "\<not> truthy fdesc"
  shows "processNode data node = Inr (JStr [])"
  using assms by (simp add: processNode_asset)

lemma asset_with_file:
  assumes "js_get node ''nodeType'' = Inr (JStr ''embedded-asset-block'')"
    and "asset_ref node = Inr ident"
    and "findAsset data ident = Inr asset"
    and "js_get asset ''fields'' = Inr flds"
    and "js_get flds ''file'' = Inr fdesc"
    and "js_get fdesc ''en-US'' = Inr loc"
    and "js_get loc ''url'' = Inr (JStr u)"
    and "js_get flds ''title'' = Inr ft"
    and "(\<not> truthy ft \<and> t = []) \<or> js_get ft ''en-US'' = Inr (JStr t)"
  shows "processNode data node =
           Inr (JStr (''\<newline>\<newline>!['' @ t @ '']('' @
                      (if startsWith u ''//'' then ''https:'' @ u else u) @ '')\<newline>\<newline>''))"
proof -
  have loc: "truthy loc" using assms(7) by (rule js_get_truthy) simp
  then have "loc \<noteq> JUndefined" by auto
  with assms(6) have tf: "truthy fdesc" by (rule js_get_truthy)
  then have "fdesc \<noteq> JUndefined" by auto
  with assms(5) have "truthy flds" by (rule js_get_truthy)
  then have "flds \<noteq> JUndefined" by auto
  with assms(4) have asset: "truthy asset" by (rule js_get_truthy)
  from assms(9) have
    "(if truthy ft then js_get ft ''en-US'' else Inr (JStr [])) = Inr (JStr t)"
  proof
    assume "\<not> truthy ft \<and> t = []"
    then show ?thesis by simp
  next
    assume a: "js_get ft ''en-US'' = Inr (JStr t)"
    then have "truthy ft" by (rule js_get_truthy) simp
    with a show ?thesis by simp
  qed
  with assms(1-8) tf asset show ?thesis
    by (simp add: processNode_asset)
qed

lemma startsWith_slashes: "startsWith u ''//'' \<longleftrightarrow> take 2 u = ''//''"
  by (simp add: startsWith_def numeral_2_eq_2)

text \<open>
  C4. An embedded-asset-block whose asset id the lookup does not find renders as the
  empty string, and so does one whose asset has no file descriptor among its fields;
  neither raises. When the asset is found and its file descriptor holds a URL, the node
  renders as a blank line, the image \<^verbatim>\<open>![title](url)\<close> and a blank line, where the title
  is empty when the asset has no title field.
\<close>

theorem embedded_asset_missing_or_found:
  assumes "js_get node ''nodeType'' = Inr (JStr ''embedded-asset-block'')"
    and "asset_ref node = Inr ident"
    and "findAsset data ident = Inr asset"
  shows "(asset = JUndefined \<longrightarrow> processNode data node = Inr (JStr []))
       \<and> (js_get asset ''fields'' = Inr flds \<and> js_get flds ''file'' = Inr fdesc \<and> \<not> truthy fdesc
            \<longrightarrow> processNode data node = Inr (JStr []))
       \<and> (js_get asset ''fields'' = Inr flds \<and> js_get flds ''file'' = Inr fdesc
            \<and> js_get fdesc ''en-US'' = Inr loc \<and> js_get loc ''url'' = Inr (JStr u)
            \<and> js_get flds ''title'' = Inr ft
            \<and> ((\<not> truthy ft \<and> t = []) \<or> js_get ft ''en-US'' = Inr (JStr t))
            \<longrightarrow> processNode data node =
                  Inr (JStr (''\<newline>\<newline>!['' @ t @ '']('' @
                             (if startsWith u ''//'' then ''https:'' @ u else u) @ '')\<newline>\<newline>'')))"
proof (intro conjI impI)
  assume "asset = JUndefined"
  with assms show "processNode data node = Inr (JStr [])"
    by (simp add: asset_missing)
next
  assume "js_get asset ''fields'' = Inr flds \<and> js_get flds ''file'' = Inr fdesc \<and> \<not> truthy fdesc"
  with assms show "processNode data node = Inr (JStr [])"
    by (blast intro: asset_without_file)
next
  assume a: "js_get asset ''fields'' = Inr flds \<and> js_get flds ''file'' = Inr fdesc
            \<and> js_get fdesc ''en-US'' = Inr loc \<and> js_get loc ''url'' = Inr (JStr u)
            \<and> js_get flds ''title'' = Inr ft
            \<and> ((\<not> truthy ft \<and> t = []) \<or> js_get ft ''en-US'' = Inr (JStr t))"
  show "processNode data node =
          Inr (JStr (''\<newline>\<newline>!['' @ t @ '']('' @
                     (if startsWith u ''//'' then ''https:'' @ u else u) @ '')\<newline>\<newline>''))"
    by (rule asset_with_file [OF assms]) (use a in blast)+
qed


text \<open>
  An example snapshot: one asset with a protocol-relative file URL and no title, one
  asset with a title and no file, one asset with a title and an absolute URL; and the
  embedded-asset-block that refers to a given id.
\<close>

definition example_assets :: "jsval list" where
  "example_assets =
     [JObj [(''sys'', JObj [(''id'', JStr ''a1'')]),
            (''fields'', JObj [(''file'', JObj [(''en-US'',
               JObj [(''url'', JStr ''//images.example.com/a.png'')])])])],
      JObj [(''sys'', JObj [(''id'', JStr ''a2'')]),
            (''fields'', JObj [(''title'', JObj [(''en-US'', JStr ''Logo'')])])],
      JObj [(''sys'', JObj [(''id'', JStr ''a3'')]),
            (''fields'', JObj [(''title'', JObj [(''en-US'', JStr ''Map'')]),
                              (''file'', JObj [(''en-US'',
               JObj [(''url'', JStr ''http://x.org/m.png'')])])])]]"

definition example_data :: "jsval" where
  "example_data = JObj [(''entries'', JArr []), (''assets'', JArr example_assets)]"

definition asset_block :: "string \<Rightarrow> jsval" where
  "asset_block i =
     JObj [(''nodeType'', JStr ''embedded-asset-block''),
           (''data'', JObj [(''target'', JObj [(''sys'', JObj [(''id'', JStr i)])])])]"

lemmas example_simps =
  example_data_def example_assets_def asset_block_def asset_ref_def findAsset_def
  has_id_def array_find_def

theorem embedded_asset_missing_or_found_witness:
  "processNode example_data (asset_block ''zz'') = Inr (JStr [])
   \<and> processNode example_data (asset_block ''a2'') = Inr (JStr [])
   \<and> processNode example_data (asset_block ''a1'') =
       Inr (JStr ''\<newline>\<newline>![](https://images.example.com/a.png)\<newline>\<newline>'')
   \<and> processNode example_data (asset_block ''a3'') =
       Inr (JStr ''\<newline>\<newline>![Map](http://x.org/m.png)\<newline>\<newline>'')"
  using
    embedded_asset_missing_or_found
      [where node = "asset_block ''zz''" and ident = "JStr ''zz''" and data = example_data
         and asset = JUndefined]
    embedded_asset_missing_or_found
      [where node = "asset_block ''a2''" and ident = "JStr ''a2''" and data = example_data
         and asset = "example_assets ! 1"
         and flds = "JObj [(''title'', JObj [(''en-US'', JStr ''Logo'')])]"
         and fdesc = JUndefined]
    embedded_asset_missing_or_found
      [where node = "asset_block ''a1''" and ident = "JStr ''a1''" and data = example_data
         and asset = "example_assets ! 0"
         and flds = "JObj [(''file'', JObj [(''en-US'',
               JObj [(''url'', JStr ''//images.example.com/a.png'')])])]"
         and fdesc = "JObj [(''en-US'', JObj [(''url'', JStr ''//images.example.com/a.png'')])]"
         and loc = "JObj [(''url'', JStr ''//images.example.com/a.png'')]"
         and u = "''//images.example.com/a.png''" and ft = JUndefined and t = "[]"]
    embedded_asset_missing_or_found
      [where node = "asset_block ''a3''" and ident = "JStr ''a3''" and data = example_data
         and asset = "example_assets ! 2"
         and flds = "JObj [(''title'', JObj [(''en-US'', JStr ''Map'')]),
                          (''file'', JObj [(''en-US'', JObj [(''url'', JStr ''http://x.org/m.png'')])])]"
         and fdesc = "JObj [(''en-US'', JObj [(''url'', JStr ''http://x.org/m.png'')])]"
         and loc = "JObj [(''url'', JStr ''http://x.org/m.png'')]"
         and u = "''http://x.org/m.png''" and ft = "JObj [(''en-US'', JStr ''Map'')]"
         and t = "''Map''"]
  by (simp add: example_simps startsWith_def)

text \<open>
  C8. For an embedded-asset-block whose asset is found and has a file descriptor, a
  URL that starts with two slashes is emitted with \<open>https:\<close> in front of it, and any
  other URL is emitted as it is. The URL \<open>//images.example.com/a.png\<close> is emitted as
  \<open>https://images.example.com/a.png\<close>.
\<close>

theorem asset_url_gets_https:
  assumes "js_get node ''nodeType'' = Inr (JStr ''embedded-asset-block'')"
    and "asset_ref node = Inr ident"
    and "findAsset data ident = Inr asset"
    and "js_get asset ''fields'' = Inr flds"
    and "js_get flds ''file'' = Inr fdesc"
    and "js_get fdesc ''en-US'' = Inr loc"
    and "js_get loc ''url'' = Inr (JStr u)"
    and "js_get flds ''title'' = Inr ft"
    and "(\<not> truthy ft \<and> t = []) \<or> js_get ft ''en-US'' = Inr (JStr t)"
  shows "(take 2 u = ''//'' \<longrightarrow>
            processNode data node =
              Inr (JStr (''\<newline>\<newline>!['' @ t @ '']('' @ ''https:'' @ u @ '')\<newline>\<newline>'')))
       \<and> (take 2 u \<noteq> ''//'' \<longrightarrow>
            processNode data node =
              Inr (JStr (''\<newline>\<newline>!['' @ t @ '']('' @ u @ '')\<newline>\<newline>'')))
       \<and> (u = ''//images.example.com/a.png'' \<longrightarrow>
            processNode data node =
              Inr (JStr (''\<newline>\<newline>!['' @ t @ ''](https://images.example.com/a.png)\<newline>\<newline>'')))"
  using asset_with_file [OF assms] by (auto simp: startsWith_slashes)

theorem asset_url_gets_https_witness:
  "processNode example_data (asset_block ''a1'') =
       Inr (JStr ''\<newline>\<newline>![](https://images.example.com/a.png)\<newline>\<newline>'')
   \<and> processNode example_data (asset_block ''a3'') =
       Inr (JStr ''\<newline>\<newline>![Map](http://x.org/m.png)\<newline>\<newline>'')"
  using
    asset_url_gets_https
      [where node = "asset_block ''a1''" and ident = "JStr ''a1''" and data = example_data
         and asset = "example_assets ! 0"
         and flds = "JObj [(''file'', JObj [(''en-US'',
               JObj [(''url'', JStr ''//images.example.com/a.png'')])])]"
         and fdesc = "JObj [(''en-US'', JObj [(''url'', JStr ''//images.example.com/a.png'')])]"
         and loc = "JObj [(''url'', JStr ''//images.example.com/a.png'')]"
         and u = "''//images.example.com/a.png''" and ft = JUndefined and t = "[]"]
    asset_url_gets_https
      [where node = "asset_block ''a3''" and ident = "JStr ''a3''" and data = example_data
         and asset = "example_assets ! 2"
         and flds = "JObj [(''title'', JObj [(''en-US'', JStr ''Map'')]),
                          (''file'', JObj [(''en-US'', JObj [(''url'', JStr ''http://x.org/m.png'')])])]"
         and fdesc = "JObj [(''en-US'', JObj [(''url'', JStr ''http://x.org/m.png'')])]"
         and loc = "JObj [(''url'', JStr ''http://x.org/m.png'')]"
         and u = "''http://x.org/m.png''" and ft = "JObj [(''en-US'', JStr ''Map'')]"
         and t = "''Map''"]
  by (simp add: example_simps)

subsection \<open>Tables\<close>

text \<open>
  The table as the specification words it. The text of a cell is the concatenation of
  the renderings of its children, trimmed; a row is the list of its cell texts; a row
  line puts the cells between pipes; the separator line has one \<open>---\<close> per column; and
  the lines of a table are the row lines in order with the separator after the first.
\<close>

definition cell_text :: "jsval \<Rightarrow> jsval \<Rightarrow> error + string" where
  "cell_text data cell =
     bind (js_get cell ''content'') (\<lambda>kids.
     bind (array_map (\<lambda>n i. processNode data n) kids) (\<lambda>rs.
     Inr (trim (js_join rs []))))"

definition row_cells :: "jsval \<Rightarrow> jsval \<Rightarrow> error + string list" where
  "row_cells data row =
     bind (js_get row ''content'') (array_map (\<lambda>cell j. cell_text data cell))"

definition row_line :: "string list \<Rightarrow> string" where
  "row_line cells = ''| '' @ intercalate '' | '' cells @ '' |\<newline>''"

definition separator_line :: "nat \<Rightarrow> string" where
  "separator_line n = ''| '' @ intercalate '' | '' (replicate n ''---'') @ '' |\<newline>''"

fun table_lines :: "string list list \<Rightarrow> string list" where
  "table_lines [] = []"
| "table_lines (r # rs) = row_line r # separator_line (length r) # map row_line rs"

fun lines_from :: "nat \<Rightarrow> string list list \<Rightarrow> string list" where
  "lines_from i [] = []"
| "lines_from i (r # rs) =
     row_line r # (if i = 0 then [separator_line (length r)] else []) @ lines_from (Suc i) rs"

lemma lines_from_Suc: "lines_from (Suc i) rs = map row_line rs"
  by (induction rs arbitrary: i) simp_all

lemma lines_from_0: "lines_from 0 rs = table_lines rs"
  by (cases rs) (simp_all add: lines_from_Suc)

lemma forEach_rows:
  assumes step: "\<And>row i md cells. row_cells data row = Inr cells \<Longrightarrow>
                   F row i md = Inr (md @ row_line cells @
                                      (if i = 0 then separator_line (length cells) else []))"
    and rows: "list_all2 (\<lambda>row cells. row_cells data row = Inr cells) rows cellss"
  shows "forEach_from i F rows acc = Inr (acc @ concat (lines_from i cellss))"
  using rows
proof (induction rows cellss arbitrary: i acc rule: list_all2_induct)
  case Nil
  show ?case by simp
next
  case (Cons row rows cells cellss)
  have "F row i acc = Inr (acc @ row_line cells @
                             (if i = 0 then separator_line (length cells) else []))"
    using Cons(1) by (rule step)
  with Cons(3) show ?case by simp
qed

lemma processTable_lines:
  assumes "js_get tableNode ''content'' = Inr (JArr rows)"
    and "list_all2 (\<lambda>row cells. row_cells data row = Inr cells) rows cellss"
  shows "processTable data tableNode = Inr (concat (table_lines cellss))"
proof -
  let ?F = "\<lambda>row rowIndex markdown.
       bind (js_get row ''content'') (\<lambda>rowContent.
       bind (array_map (\<lambda>cell j.
               bind (js_get cell ''content'') (\<lambda>cellContent.
               bind (array_map (\<lambda>n i. processNode data n) cellContent) (\<lambda>rs.
               Inr (trim (js_join rs []))))) rowContent) (\<lambda>cells.
       let markdown1 = markdown @ ''| '' @ intercalate '' | '' cells @ '' |\<newline>''
       in Inr (if rowIndex = 0
               then markdown1 @ ''| '' @ intercalate '' | '' (map (\<lambda>c. ''---'') cells) @ '' |\<newline>''
               else markdown1)))"
  have step: "?F row i md = Inr (md @ row_line cells @
                                   (if i = 0 then separator_line (length cells) else []))"
    if "row_cells data row = Inr cells" for row i md cells
  proof -
    from that obtain rc where rc: "js_get row ''content'' = Inr rc"
      and cs: "array_map (\<lambda>cell j. cell_text data cell) rc = Inr cells"
      by (auto simp: row_cells_def bind_eq_Inr)
    from cs have "array_map (\<lambda>cell j.
               bind (js_get cell ''content'') (\<lambda>cellContent.
               bind (array_map (\<lambda>n i. processNode data n) cellContent) (\<lambda>rs.
               Inr (trim (js_join rs []))))) rc = Inr cells"
      by (simp add: cell_text_def)
    with rc show ?thesis
      by (simp add: row_line_def separator_line_def map_replicate_const)
  qed
  have "forEach_from 0 ?F rows [] = Inr ([] @ concat (lines_from 0 cellss))"
    using step assms(2) by (rule forEach_rows)
  then show ?thesis using assms(1)
    by (subst processTable.simps) (simp add: array_forEach_def lines_from_0)
qed

text \<open>
  C3. For a table node with at least one row, the table renderer emits one
  pipe-delimited line per row, in the order of the rows, each cell being the trimmed
  concatenation of the renderings of its children, and one separator line of \<open>---\<close>
  placeholders, as many as the first row has columns, right after the line of row 0
  and nowhere else: a table of \<open>n\<close> rows gives \<open>n + 1\<close> lines. A table of 2 rows and 3
  columns gives 3 lines, the second being \<^verbatim>\<open>| --- | --- | --- |\<close>. A line is the string
  emitted for a row or for the separator, ended by a line break.
\<close>

theorem table_rows_and_one_separator:
  assumes "js_get tableNode ''content'' = Inr (JArr rows)"
    and "rows \<noteq> []"
    and "list_all2 (\<lambda>row cells. row_cells data row = Inr cells) rows cellss"
  shows "processTable data tableNode = Inr (concat (table_lines cellss))
       \<and> table_lines cellss =
           row_line (hd cellss) # separator_line (length (hd cellss)) # map row_line (tl cellss)
       \<and> length (table_lines cellss) = length rows + 1
       \<and> (cellss = [[a, b, c], [d, e, f]] \<longrightarrow>
            processTable data tableNode =
              Inr (row_line [a, b, c] @ ''| --- | --- | --- |\<newline>'' @ row_line [d, e, f]))"
proof -
  from assms(2,3) obtain r rs where c: "cellss = r # rs"
    by (cases cellss) auto
  from assms(3) have len: "length cellss = length rows"
    by (simp add: list_all2_lengthD)
  have p: "processTable data tableNode = Inr (concat (table_lines cellss))"
    using assms(1,3) by (rule processTable_lines)
  have "cellss = [[a, b, c], [d, e, f]] \<longrightarrow>
          processTable data tableNode =
            Inr (row_line [a, b, c] @ ''| --- | --- | --- |\<newline>'' @ row_line [d, e, f])"
    using p by (simp add: separator_line_def numeral_3_eq_3)
  with p c len show ?thesis by auto
qed


text \<open>An example table of two rows and three columns; some cells hold spaces to trim.\<close>

definition text_node :: "string \<Rightarrow> jsval" where
  "text_node v = JObj [(''nodeType'', JStr ''text''), (''value'', JStr v), (''marks'', JArr [])]"

definition table_cell :: "string \<Rightarrow> jsval" where
  "table_cell v =
     JObj [(''nodeType'', JStr ''table-cell''),
           (''content'', JArr [JObj [(''nodeType'', JStr ''paragraph''),
                                    (''content'', JArr [text_node v])]])]"

definition table_row :: "string list \<Rightarrow> jsval" where
  "table_row vs = JObj [(''nodeType'', JStr ''table-row''), (''content'', JArr (map table_cell vs))]"

definition example_rows :: "jsval list" where
  "example_rows = [table_row ['' Name'', ''Size '', ''Kind''], table_row [''a.png'', '' 3 kB '', ''image'']]"

definition example_table :: "jsval" where
  "example_table = JObj [(''nodeType'', JStr ''table''), (''content'', JArr example_rows)]"

theorem table_rows_and_one_separator_witness:
  "processTable (JObj []) example_table =
     Inr ''| Name | Size | Kind |\<newline>| --- | --- | --- |\<newline>| a.png | 3 kB | image |\<newline>''"
proof -
  have 1: "js_get example_table ''content'' = Inr (JArr example_rows)"
    by (simp add: example_table_def)
  have 2: "example_rows \<noteq> []"
    by (simp add: example_rows_def)
  have 3: "list_all2 (\<lambda>row cells. row_cells (JObj []) row = Inr cells) example_rows
             [[''Name'', ''Size'', ''Kind''], [''a.png'', ''3 kB'', ''image'']]"
    by code_simp
  show ?thesis
    using table_rows_and_one_separator
      [OF 1 2 3, where a = "''Name''" and b = "''Size''" and c = "''Kind''"
         and d = "''a.png''" and e = "''3 kB''" and f = "''image''"]
    by (simp add: row_line_def separator_line_def example_rows_def)
qed

subsection \<open>The document of a page\<close>

text \<open>
  Names for the parts of \<open>assemblePage\<close>: the title and the description as lines 118
  and 119 read them, the document up to the content blocks, the id a content reference
  holds, and the text the content blocks add to an empty document.
\<close>

definition page_title :: "jsval \<Rightarrow> error + jsval" where
  "page_title flds =
     bind (js_get flds ''title'') (\<lambda>ft.
     if truthy ft then js_get ft ''en-US'' else Inr (JStr ''Untitled''))"

definition page_description :: "jsval \<Rightarrow> error + jsval" where
  "page_description flds =
     bind (js_get flds ''description'') (\<lambda>fd.
     if truthy fd then js_get fd ''en-US'' else Inr (JStr []))"

definition page_header :: "string \<Rightarrow> jsval \<Rightarrow> string" where
  \<open>page_header t d =
     ''---\<newline>title: "'' @ t @ ''"\<newline>'' @
     (if truthy d then ''description: "'' @ js_to_string d @ ''"\<newline>'' else []) @
     ''---\<newline>\<newline>'' @
     ''# '' @ t @ ''\<newline>\<newline>'' @
     (if truthy d then js_to_string d @ ''\<newline>\<newline>'' else [])\<close>

definition ref_id :: "jsval \<Rightarrow> error + jsval" where
  "ref_id ref = bind (js_get ref ''sys'') (\<lambda>sys. js_get sys ''id'')"

definition page_body :: "jsval \<Rightarrow> jsval \<Rightarrow> error + string" where
  "page_body data flds =
     bind (js_get flds ''content'') (\<lambda>fc.
     bind (if truthy fc then js_get fc ''en-US'' else Inr fc) (\<lambda>contentRefs.
     if truthy contentRefs then array_forEach (appendBlock data) contentRefs [] else Inr []))"

lemma bind_assoc: "bind (bind m f) g = bind m (\<lambda>x. bind (f x) g)"
  by (cases m) simp_all

lemma bind_if: "bind (if c then a else b) f = (if c then bind a f else bind b f)"
  by simp

lemma appendBlock_append:
  "appendBlock data ref i md = bind (appendBlock data ref i []) (\<lambda>b. Inr (md @ b))"
  by (simp add: appendBlock_def bind_def Let_def split: sum.splits)

lemma forEach_appendBlock:
  "forEach_from i (appendBlock data) refs md =
     bind (forEach_from i (appendBlock data) refs []) (\<lambda>b. Inr (md @ b))"
proof (induction refs arbitrary: i md)
  case Nil
  show ?case by simp
next
  case (Cons r rs)
  show ?case
  proof (cases "appendBlock data r i []")
    case (Inl e)
    then have "appendBlock data r i md = Inl e"
      by (subst appendBlock_append) simp
    with Inl show ?thesis by simp
  next
    case (Inr b)
    then have "appendBlock data r i md = Inr (md @ b)"
      by (subst appendBlock_append) simp
    moreover have "forEach_from (Suc i) (appendBlock data) rs (md @ b) =
        bind (forEach_from (Suc i) (appendBlock data) rs []) (\<lambda>c. Inr ((md @ b) @ c))"
      by (rule Cons)
    moreover have "forEach_from (Suc i) (appendBlock data) rs b =
        bind (forEach_from (Suc i) (appendBlock data) rs []) (\<lambda>c. Inr (b @ c))"
      by (rule Cons)
    ultimately show ?thesis using Inr by (simp add: bind_assoc)
  qed
qed

lemma assemblePage_header_body:
  assumes "js_get page ''fields'' = Inr flds"
    and "page_title flds = Inr (JStr t)"
    and "page_description flds = Inr d"
  shows "assemblePage data page =
           bind (page_body data flds) (\<lambda>body.
           Inr (t, derive_filename t, page_header t d @ body))"
proof -
  from assms(2) obtain ft where ft: "js_get flds ''title'' = Inr ft"
    and tv: "(if truthy ft then js_get ft ''en-US'' else Inr (JStr ''Untitled'')) = Inr (JStr t)"
    by (auto simp: page_title_def bind_eq_Inr)
  from assms(3) obtain fd where fd: "js_get flds ''description'' = Inr fd"
    and dv: "(if truthy fd then js_get fd ''en-US'' else Inr (JStr [])) = Inr d"
    by (auto simp: page_description_def bind_eq_Inr)
  have loop: "array_forEach (appendBlock data) refs md =
                bind (array_forEach (appendBlock data) refs []) (\<lambda>b. Inr (md @ b))" for refs md
    by (cases refs) (simp_all add: array_forEach_def forEach_appendBlock [of 0 data _ md])
  have "assemblePage data page =
          bind (js_get flds ''content'') (\<lambda>fc.
          bind (if truthy fc then js_get fc ''en-US'' else Inr fc) (\<lambda>contentRefs.
          bind (if truthy contentRefs
                then array_forEach (appendBlock data) contentRefs (page_header t d)
                else Inr (page_header t d)) (\<lambda>markdown.
          Inr (t, derive_filename t, markdown))))"
    using assms(1) ft tv fd dv
    by (cases "truthy ft"; cases "truthy fd")
       (simp_all add: assemblePage_def page_header_def Let_def cong: if_cong)
  also have "\<dots> = bind (page_body data flds) (\<lambda>body.
                      Inr (t, derive_filename t, page_header t d @ body))"
  proof (cases "js_get flds ''content''")
    case (Inl e)
    then show ?thesis by (simp add: page_body_def)
  next
    case fc: (Inr fc)
    show ?thesis
    proof (cases "if truthy fc then js_get fc ''en-US'' else Inr fc")
      case (Inl e)
      with fc show ?thesis by (simp add: page_body_def)
    next
      case (Inr contentRefs)
      with fc show ?thesis
        by (cases "truthy contentRefs")
           (simp_all add: page_body_def bind_assoc loop [where md = "page_header t d"])
    qed
  qed
  finally show ?thesis .
qed


lemma appendBlock_missing:
  assumes "ref_id ref = Inr ident" and "findEntry data ident = Inr JUndefined"
  shows "appendBlock data ref i md = Inr md"
proof -
  from assms(1) obtain sys where "js_get ref ''sys'' = Inr sys" "js_get sys ''id'' = Inr ident"
    by (auto simp: ref_id_def bind_eq_Inr)
  with assms(2) show ?thesis by (simp add: appendBlock_def)
qed

lemma forEach_missing:
  "\<forall>ref\<in>set refs. \<exists>ident. ref_id ref = Inr ident \<and> findEntry data ident = Inr JUndefined
     \<Longrightarrow> forEach_from i (appendBlock data) refs md = Inr md"
proof (induction refs arbitrary: i)
  case Nil
  show ?case by simp
next
  case (Cons r rs)
  then obtain ident where "ref_id r = Inr ident" "findEntry data ident = Inr JUndefined"
    by auto
  then have "appendBlock data r i md = Inr md" by (rule appendBlock_missing)
  with Cons show ?case by simp
qed

lemma page_body_missing:
  assumes "js_get flds ''content'' = Inr fc" and "js_get fc ''en-US'' = Inr (JArr refs)"
    and "\<forall>ref\<in>set refs. \<exists>ident. ref_id ref = Inr ident \<and> findEntry data ident = Inr JUndefined"
  shows "page_body data flds = Inr []"
proof -
  have "truthy fc" using assms(2) by (rule js_get_truthy) simp
  with assms show ?thesis
    by (simp add: page_body_def array_forEach_def forEach_missing)
qed

text \<open>An example snapshot: four pages, one content block and the example assets.\<close>

definition locale_of :: "jsval \<Rightarrow> jsval" where
  "locale_of v = JObj [(''en-US'', v)]"

definition link_to :: "string \<Rightarrow> jsval" where
  "link_to i = JObj [(''sys'', JObj [(''type'', JStr ''Link''), (''id'', JStr i)])]"

definition entry :: "string \<Rightarrow> string \<Rightarrow> (string \<times> jsval) list \<Rightarrow> jsval" where
  "entry i ct flds =
     JObj [(''sys'', JObj [(''id'', JStr i),
                          (''contentType'', JObj [(''sys'', JObj [(''id'', JStr ct)])])]),
           (''fields'', JObj flds)]"

definition block_section_a :: "jsval" where
  "block_section_a =
     entry ''b1'' ''contentBlock''
       [(''title'', locale_of (JStr ''Section A'')),
        (''content'', locale_of (JObj [(''nodeType'', JStr ''document''), (''content'', JArr
           [JObj [(''nodeType'', JStr ''paragraph''), (''content'', JArr
              [JObj [(''nodeType'', JStr ''text''), (''value'', JStr ''Hi ''), (''marks'', JArr [])],
               JObj [(''nodeType'', JStr ''text''), (''value'', JStr ''there''),
                     (''marks'', JArr [JObj [(''type'', JStr ''bold'')]])]])]])]))]"

definition page_intro :: "jsval" where
  "page_intro =
     entry ''p1'' ''page''
       [(''title'', locale_of (JStr ''Intro'')),
        (''description'', locale_of (JStr ''Welcome'')),
        (''content'', locale_of (JArr [link_to ''b1'']))]"

definition page_broken :: "jsval" where
  "page_broken =
     entry ''p2'' ''page''
       [(''title'', locale_of (JStr ''Broken'')),
        (''content'', locale_of (JNum ''5''))]"

definition page_orphan :: "jsval" where
  "page_orphan =
     entry ''p3'' ''page''
       [(''title'', locale_of (JStr ''Orphan refs'')),
        (''description'', locale_of (JStr ''Nothing here'')),
        (''content'', locale_of (JArr [link_to ''gone1'', link_to ''gone2'']))]"

definition page_plain :: "jsval" where
  "page_plain = entry ''p4'' ''page'' [(''title'', locale_of (JStr ''T'')),
                                     (''description'', locale_of (JStr []))]"

definition example_snapshot :: "jsval" where
  "example_snapshot =
     JObj [(''entries'', JArr [page_intro, block_section_a, page_broken, page_orphan, page_plain]),
           (''assets'', JArr example_assets)]"

lemmas snapshot_simps =
  example_snapshot_def page_intro_def page_broken_def page_orphan_def page_plain_def
  block_section_a_def entry_def link_to_def locale_of_def
  page_title_def page_description_def ref_id_def findEntry_def has_id_def array_find_def

text \<open>
  C5. A page all of whose content references name entries that the lookup does not find
  is assembled without an exception, and its document is the front matter, the level-1
  heading with the title and the description paragraph, with nothing after them: no
  heading and no text for any of the references. The description line and paragraph
  are there when the description is non-empty.
\<close>

theorem unresolved_references_add_nothing:
  assumes "js_get page ''fields'' = Inr flds"
    and "page_title flds = Inr (JStr t)"
    and "page_description flds = Inr d"
    and "js_get flds ''content'' = Inr fc"
    and "js_get fc ''en-US'' = Inr (JArr refs)"
    and "\<forall>ref\<in>set refs. \<exists>ident. ref_id ref = Inr ident \<and> findEntry data ident = Inr JUndefined"
  shows \<open>assemblePage data page =
           Inr (t, derive_filename t,
                ''---\<newline>title: "'' @ t @ ''"\<newline>'' @
                (if truthy d then ''description: "'' @ js_to_string d @ ''"\<newline>'' else []) @
                ''---\<newline>\<newline>'' @
                ''# '' @ t @ ''\<newline>\<newline>'' @
                (if truthy d then js_to_string d @ ''\<newline>\<newline>'' else []))\<close>
proof -
  have "page_body data flds = Inr []"
    using assms(4,5,6) by (rule page_body_missing)
  then show ?thesis
    using assemblePage_header_body [OF assms(1,2,3), of data]
    by (simp add: page_header_def)
qed

theorem unresolved_references_add_nothing_witness:
  \<open>assemblePage example_snapshot page_orphan =
     Inr (''Orphan refs'', ''orphan-refs.mdx'',
          ''---\<newline>title: "Orphan refs"\<newline>description: "Nothing here"\<newline>---\<newline>\<newline># Orphan refs\<newline>\<newline>Nothing here\<newline>\<newline>'')\<close>
proof -
  have f: "derive_filename ''Orphan refs'' = ''orphan-refs.mdx''" by code_simp
  show ?thesis
    using unresolved_references_add_nothing
      [where page = page_orphan and data = example_snapshot and t = "''Orphan refs''"
         and d = "JStr ''Nothing here''"
         and flds = "JObj [(''title'', locale_of (JStr ''Orphan refs'')),
                          (''description'', locale_of (JStr ''Nothing here'')),
                          (''content'', locale_of (JArr [link_to ''gone1'', link_to ''gone2'']))]"
         and fc = "locale_of (JArr [link_to ''gone1'', link_to ''gone2''])"
         and refs = "[link_to ''gone1'', link_to ''gone2'']"]
    by (simp add: snapshot_simps f)
qed


lemma page_body_no_content: "js_get flds ''content'' = Inr JUndefined \<Longrightarrow> page_body data flds = Inr []"
  by (simp add: page_body_def)

text \<open>
  C9, as amended. For a page whose description field is present with a non-empty
  string, the front matter holds the line \<^verbatim>\<open>description: "..."\<close> between the title line
  and the closing \<^verbatim>\<open>---\<close>, and the description paragraph follows the level-1 heading.
  When the description is the empty string there is neither the line nor the
  paragraph. In both cases the content blocks follow, and the page fails only when
  they do.
\<close>

theorem description_emitted_when_non_empty:
  assumes "js_get page ''fields'' = Inr flds"
    and "page_title flds = Inr (JStr t)"
    and "js_get flds ''description'' = Inr fd"
    and "js_get fd ''en-US'' = Inr (JStr ds)"
  shows \<open>(ds \<noteq> [] \<longrightarrow>
            assemblePage data page =
              bind (page_body data flds) (\<lambda>body.
              Inr (t, derive_filename t,
                   ''---\<newline>title: "'' @ t @ ''"\<newline>description: "'' @ ds @ ''"\<newline>---\<newline>\<newline>'' @
                   ''# '' @ t @ ''\<newline>\<newline>'' @ ds @ ''\<newline>\<newline>'' @ body)))
       \<and> (ds = [] \<longrightarrow>
            assemblePage data page =
              bind (page_body data flds) (\<lambda>body.
              Inr (t, derive_filename t,
                   ''---\<newline>title: "'' @ t @ ''"\<newline>---\<newline>\<newline>'' @
                   ''# '' @ t @ ''\<newline>\<newline>'' @ body)))\<close>
proof -
  have "truthy fd" using assms(4) by (rule js_get_truthy) simp
  with assms(3,4) have "page_description flds = Inr (JStr ds)"
    by (simp add: page_description_def)
  from assemblePage_header_body [OF assms(1,2) this, of data]
  show ?thesis by (simp add: page_header_def)
qed

theorem description_emitted_when_non_empty_witness:
  \<open>assemblePage example_snapshot page_intro =
     Inr (''Intro'', ''intro.mdx'',
          ''---\<newline>title: "Intro"\<newline>description: "Welcome"\<newline>---\<newline>\<newline># Intro\<newline>\<newline>Welcome\<newline>\<newline>### Section A\<newline>\<newline>Hi **there**\<newline>\<newline>'')\<close>
proof -
  let ?flds = "JObj [(''title'', locale_of (JStr ''Intro'')),
                     (''description'', locale_of (JStr ''Welcome'')),
                     (''content'', locale_of (JArr [link_to ''b1'']))]"
  have f: "derive_filename ''Intro'' = ''intro.mdx''" by code_simp
  have b: "page_body example_snapshot ?flds = Inr ''### Section A\<newline>\<newline>Hi **there**\<newline>\<newline>''"
    by code_simp
  show ?thesis
    using description_emitted_when_non_empty
      [where page = page_intro and data = example_snapshot and t = "''Intro''"
         and ds = "''Welcome''" and flds = ?flds
         and fd = "locale_of (JStr ''Welcome'')"]
      b f
    by (simp add: page_intro_def entry_def link_to_def locale_of_def page_title_def)
qed

text \<open>
  C9 as it was stated includes a description that is present and empty. The page
  \<open>page_plain\<close> has such a description, and its document has no description line and
  no description paragraph: it is not the document the claim describes.
\<close>

theorem empty_description_counterexample:
  \<open>page_description (JObj [(''title'', locale_of (JStr ''T'')),
                           (''description'', locale_of (JStr []))]) = Inr (JStr [])
   \<and> assemblePage example_snapshot page_plain =
       Inr (''T'', ''t.mdx'', ''---\<newline>title: "T"\<newline>---\<newline>\<newline># T\<newline>\<newline>'')
   \<and> assemblePage example_snapshot page_plain \<noteq>
       Inr (''T'', ''t.mdx'', ''---\<newline>title: "T"\<newline>description: ""\<newline>---\<newline>\<newline># T\<newline>\<newline>\<newline>\<newline>'')\<close>
  by code_simp

text \<open>
  C10, as amended. When the title field of a page is absent, or is itself a falsy value
  such as the bare empty string, the title is \<open>Untitled\<close> in the front matter and in
  the level-1 heading and the file is \<open>untitled.mdx\<close>. When the title field is a locale
  map whose \<open>en-US\<close> value is the empty string, the title is not replaced: the front
  matter has \<^verbatim>\<open>title: ""\<close>, the heading is empty and the file is \<open>.mdx\<close>.
\<close>

theorem title_defaults_when_field_falsy:
  assumes "js_get page ''fields'' = Inr flds"
    and "js_get flds ''title'' = Inr ft"
    and "page_description flds = Inr d"
  shows "(\<not> truthy ft \<longrightarrow>
            assemblePage data page =
              bind (page_body data flds) (\<lambda>body.
              Inr (''Untitled'', ''untitled.mdx'', page_header ''Untitled'' d @ body)))
       \<and> (js_get ft ''en-US'' = Inr (JStr []) \<longrightarrow>
            assemblePage data page =
              bind (page_body data flds) (\<lambda>body.
              Inr ([], ''.mdx'', page_header [] d @ body)))"
proof (intro conjI impI)
  assume "\<not> truthy ft"
  with assms(2) have "page_title flds = Inr (JStr ''Untitled'')"
    by (simp add: page_title_def)
  moreover have "derive_filename ''Untitled'' = ''untitled.mdx''" by code_simp
  ultimately show "assemblePage data page =
      bind (page_body data flds) (\<lambda>body.
      Inr (''Untitled'', ''untitled.mdx'', page_header ''Untitled'' d @ body))"
    using assemblePage_header_body [OF assms(1) _ assms(3), of "''Untitled''" data] by simp
next
  assume a: "js_get ft ''en-US'' = Inr (JStr [])"
  then have "truthy ft" by (rule js_get_truthy) simp
  with a assms(2) have "page_title flds = Inr (JStr [])"
    by (simp add: page_title_def)
  moreover have "derive_filename [] = ''.mdx''" by code_simp
  ultimately show "assemblePage data page =
      bind (page_body data flds) (\<lambda>body. Inr ([], ''.mdx'', page_header [] d @ body))"
    using assemblePage_header_body [OF assms(1) _ assms(3), of "[]" data] by simp
qed

definition page_bare_title :: "jsval" where
  "page_bare_title = entry ''p5'' ''page'' [(''title'', JStr [])]"

definition page_no_title :: "jsval" where
  "page_no_title = entry ''p6'' ''page'' []"

definition page_empty_title :: "jsval" where
  "page_empty_title = entry ''p7'' ''page'' [(''title'', locale_of (JStr []))]"

theorem title_defaults_when_field_falsy_witness:
  \<open>assemblePage example_snapshot page_bare_title =
     Inr (''Untitled'', ''untitled.mdx'', ''---\<newline>title: "Untitled"\<newline>---\<newline>\<newline># Untitled\<newline>\<newline>'')
   \<and> assemblePage example_snapshot page_no_title =
     Inr (''Untitled'', ''untitled.mdx'', ''---\<newline>title: "Untitled"\<newline>---\<newline>\<newline># Untitled\<newline>\<newline>'')
   \<and> assemblePage example_snapshot page_empty_title =
     Inr ([], ''.mdx'', ''---\<newline>title: ""\<newline>---\<newline>\<newline># \<newline>\<newline>'')\<close>
  using
    title_defaults_when_field_falsy
      [where page = page_bare_title and data = example_snapshot
         and flds = "JObj [(''title'', JStr [])]" and ft = "JStr []" and d = "JStr []"]
    title_defaults_when_field_falsy
      [where page = page_no_title and data = example_snapshot
         and flds = "JObj []" and ft = JUndefined and d = "JStr []"]
    title_defaults_when_field_falsy
      [where page = page_empty_title and data = example_snapshot
         and flds = "JObj [(''title'', locale_of (JStr []))]" and ft = "locale_of (JStr [])"
         and d = "JStr []"]
  by (simp add: page_bare_title_def page_no_title_def page_empty_title_def entry_def
        locale_of_def page_description_def page_body_def page_header_def)

text \<open>
  C10 as it was stated makes a page whose title holds the empty string behave like a
  page without a title. The two pages below differ in the title, the file name and the
  document.
\<close>

theorem empty_title_counterexample:
  \<open>assemblePage example_snapshot page_empty_title =
     Inr ([], ''.mdx'', ''---\<newline>title: ""\<newline>---\<newline>\<newline># \<newline>\<newline>'')
   \<and> assemblePage example_snapshot page_no_title =
     Inr (''Untitled'', ''untitled.mdx'', ''---\<newline>title: "Untitled"\<newline>---\<newline>\<newline># Untitled\<newline>\<newline>'')
   \<and> assemblePage example_snapshot page_empty_title \<noteq> assemblePage example_snapshot page_no_title\<close>
  by code_simp

subsection \<open>The batch\<close>

text \<open>
  What the batch is expected to leave, said without the loop: the directory after a list
  of pages, where a page whose \<^verbatim>\<open>try\<close> block raises changes nothing; the line a page
  prints under its index when it is tried on a directory; and the line of the page at
  position \<open>k\<close> of a batch, tried on the directory that the pages before it leave.
\<close>

definition dir_after :: "jsval \<Rightarrow> writer \<Rightarrow> directory \<Rightarrow> jsval list \<Rightarrow> directory" where
  "dir_after data w dir pages =
     foldl (\<lambda>d p. case tryPage data w d p of Inl e \<Rightarrow> d | Inr (title, filename, d') \<Rightarrow> d')
       dir pages"

definition page_line :: "jsval \<Rightarrow> writer \<Rightarrow> directory \<Rightarrow> nat \<Rightarrow> jsval \<Rightarrow> line" where
  "page_line data w dir index page =
     (case tryPage data w dir page of
        Inl e \<Rightarrow> ErrorConverting index e
      | Inr (title, filename, d') \<Rightarrow> Converted title filename)"

definition batch_line :: "jsval \<Rightarrow> writer \<Rightarrow> directory \<Rightarrow> jsval list \<Rightarrow> nat \<Rightarrow> line" where
  "batch_line data w dir pages k =
     page_line data w (dir_after data w dir (take k pages)) k (pages ! k)"

lemma tryPage_assembly_raises:
  "assemblePage data page = Inl e \<Longrightarrow> tryPage data w dir page = Inl e"
  by (simp add: tryPage_def)

lemma tryPage_write_raises:
  "assemblePage data page = Inr (title, filename, markdown) \<Longrightarrow> w dir filename markdown = Inl e
     \<Longrightarrow> tryPage data w dir page = Inl e"
  by (simp add: tryPage_def)

lemma convertPage_failure:
  "tryPage data w (files st) page = Inl e \<Longrightarrow>
     convertPage data w page index st = st\<lparr>console := console st @ [ErrorConverting index e]\<rparr>"
  by (simp add: convertPage_def)

lemma dir_after_Nil: "dir_after data w dir [] = dir"
  by (simp add: dir_after_def)

lemma dir_after_Cons:
  "dir_after data w dir (p # ps) = dir_after data w (dir_after data w dir [p]) ps"
  by (simp add: dir_after_def)

lemma dir_after_append:
  "dir_after data w dir (ps @ qs) = dir_after data w (dir_after data w dir ps) qs"
  by (simp add: dir_after_def)

lemma dir_after_failure:
  "tryPage data w dir p = Inl e \<Longrightarrow> dir_after data w dir [p] = dir"
  by (simp add: dir_after_def)

lemma files_convertPage:
  "files (convertPage data w page index st) = dir_after data w (files st) [page]"
  by (simp add: convertPage_def dir_after_def split: sum.splits prod.splits)

lemma console_convertPage:
  "console (convertPage data w page index st) =
     console st @ [page_line data w (files st) index page]"
  by (simp add: convertPage_def page_line_def split: sum.splits prod.splits)

lemma files_convertPages:
  "files (convertPages data w index pages st) = dir_after data w (files st) pages"
proof (induction pages arbitrary: index st)
  case Nil
  show ?case by (simp add: dir_after_Nil)
next
  case (Cons p ps)
  have "files (convertPages data w index (p # ps) st) =
          dir_after data w (dir_after data w (files st) [p]) ps"
    by (simp add: Cons files_convertPage)
  then show ?case by (simp add: dir_after_Cons [symmetric])
qed

lemma console_convertPages:
  "console (convertPages data w index pages st) =
     console st @
     map (\<lambda>k. page_line data w (dir_after data w (files st) (take k pages)) (index + k) (pages ! k))
       [0..<length pages]"
proof (induction pages arbitrary: index st)
  case Nil
  show ?case by simp
next
  case (Cons p ps)
  let ?st = "convertPage data w p index st"
  have step: "dir_after data w (files ?st) qs = dir_after data w (files st) (p # qs)" for qs
    by (simp add: files_convertPage dir_after_Cons [symmetric])
  have "console (convertPages data w index (p # ps) st) =
          console ?st @
          map (\<lambda>k. page_line data w (dir_after data w (files ?st) (take k ps)) (Suc index + k) (ps ! k))
            [0..<length ps]"
    by (simp add: Cons)
  also have "\<dots> = console st @
          page_line data w (files st) index p #
          map (\<lambda>k. page_line data w (dir_after data w (files st) (take (Suc k) (p # ps)))
                     (index + Suc k) ((p # ps) ! Suc k))
            [0..<length ps]"
    by (simp add: console_convertPage step)
  also have "\<dots> = console st @
          map (\<lambda>k. page_line data w (dir_after data w (files st) (take k (p # ps)))
                     (index + k) ((p # ps) ! k))
            [0..<length (p # ps)]"
    by (simp add: map_upt_Suc dir_after_Nil del: upt_Suc)
  finally show ?case .
qed

lemma run_result:
  assumes "selectPages data = Inr pages"
  shows "run data w dir =
           Inr \<lparr>files = dir_after data w dir pages,
                console = Found (length pages) #
                          map (batch_line data w dir pages) [0..<length pages] @
                          [Done (length pages)]\<rparr>"
proof -
  let ?st0 = "\<lparr>files = dir, console = [Found (length pages)]\<rparr>"
  let ?st = "convertPages data w 0 pages ?st0"
  have f: "files ?st = dir_after data w dir pages"
    by (simp add: files_convertPages)
  have c: "console ?st = Found (length pages) # map (batch_line data w dir pages) [0..<length pages]"
    by (simp add: console_convertPages batch_line_def)
  have "?st\<lparr>console := console ?st @ [Done (length pages)]\<rparr> =
          \<lparr>files = dir_after data w dir pages,
           console = Found (length pages) #
                     map (batch_line data w dir pages) [0..<length pages] @
                     [Done (length pages)]\<rparr>"
    using f c by (cases ?st) simp
  with assms show ?thesis by (simp add: run_def Let_def)
qed

lemma dir_after_without_failure:
  assumes "tryPage data w (dir_after data w dir pre) page = Inl e"
  shows "dir_after data w dir (pre @ page # post) = dir_after data w dir (pre @ post)"
proof -
  have "dir_after data w dir (pre @ page # post) =
          dir_after data w (dir_after data w (dir_after data w dir pre) [page]) post"
    by (simp add: dir_after_append dir_after_Cons [symmetric])
  also have "\<dots> = dir_after data w (dir_after data w dir pre) post"
    using assms by (simp add: dir_after_failure)
  finally show ?thesis by (simp add: dir_after_append)
qed

lemma batch_line_before:
  "k < length pre \<Longrightarrow> batch_line data w dir (pre @ qs) k = batch_line data w dir pre k"
  by (simp add: batch_line_def nth_append)

lemma batch_line_failure:
  assumes "tryPage data w (dir_after data w dir pre) page = Inl e"
  shows "batch_line data w dir (pre @ page # post) (length pre) = ErrorConverting (length pre) e"
  using assms by (simp add: batch_line_def page_line_def)

lemma batch_line_after:
  assumes "tryPage data w (dir_after data w dir pre) page = Inl e" and "k < length post"
  shows "batch_line data w dir (pre @ page # post) (Suc (length pre + k)) =
           page_line data w (dir_after data w dir (pre @ take k post)) (Suc (length pre + k)) (post ! k)"
proof -
  have "take (Suc (length pre + k)) (pre @ page # post) = pre @ page # take k post"
    by simp
  moreover have "(pre @ page # post) ! Suc (length pre + k) = post ! k"
    by (simp add: nth_append)
  moreover have "dir_after data w dir (pre @ page # take k post) = dir_after data w dir (pre @ take k post)"
    using assms(1) by (rule dir_after_without_failure)
  ultimately show ?thesis by (simp add: batch_line_def)
qed


text \<open>
  C6. A page whose \<^verbatim>\<open>try\<close> block raises, in the assembly or in the write of the file,
  is skipped: the callback changes no file and prints the error line with the index of
  the page and the error caught. The run prints the number of pages, then one line per
  page under the indices 0, 1, 2 and so on, then the closing line, and leaves the
  directory that the pages leave one after the other; it returns whenever the selection
  of the pages does. A failing page changes nothing for the others: with it or without
  it the directory at the end is the same, the pages before it print the same lines,
  and each page after it is tried on the same directory and prints the same line,
  under an index one higher.
\<close>

theorem failing_page_is_isolated:
  "(assemblePage data page = Inl e \<longrightarrow> tryPage data w d page = Inl e)
   \<and> (assemblePage data page = Inr (title, filename, markdown) \<and> w d filename markdown = Inl e
        \<longrightarrow> tryPage data w d page = Inl e)
   \<and> (tryPage data w (files st) page = Inl e \<longrightarrow>
        convertPage data w page index st = st\<lparr>console := console st @ [ErrorConverting index e]\<rparr>)
   \<and> (selectPages data = Inr pages \<longrightarrow>
        run data w dir =
          Inr \<lparr>files = dir_after data w dir pages,
               console = Found (length pages) #
                         map (batch_line data w dir pages) [0..<length pages] @
                         [Done (length pages)]\<rparr>)
   \<and> (tryPage data w (dir_after data w dir pre) page = Inl e \<longrightarrow>
        dir_after data w dir (pre @ page # post) = dir_after data w dir (pre @ post)
        \<and> (\<forall>k<length pre. batch_line data w dir (pre @ page # post) k =
                             batch_line data w dir (pre @ post) k)
        \<and> batch_line data w dir (pre @ page # post) (length pre) = ErrorConverting (length pre) e
        \<and> (\<forall>k<length post.
              batch_line data w dir (pre @ page # post) (Suc (length pre + k)) =
                page_line data w (dir_after data w dir (pre @ take k post))
                  (Suc (length pre + k)) (post ! k)
              \<and> batch_line data w dir (pre @ post) (length pre + k) =
                page_line data w (dir_after data w dir (pre @ take k post))
                  (length pre + k) (post ! k)))"
proof (intro conjI impI allI)
  assume "assemblePage data page = Inl e"
  then show "tryPage data w d page = Inl e" by (rule tryPage_assembly_raises)
next
  assume "assemblePage data page = Inr (title, filename, markdown) \<and> w d filename markdown = Inl e"
  then show "tryPage data w d page = Inl e" by (blast intro: tryPage_write_raises)
next
  assume "tryPage data w (files st) page = Inl e"
  then show "convertPage data w page index st =
               st\<lparr>console := console st @ [ErrorConverting index e]\<rparr>"
    by (rule convertPage_failure)
next
  assume "selectPages data = Inr pages"
  then show "run data w dir =
          Inr \<lparr>files = dir_after data w dir pages,
               console = Found (length pages) #
                         map (batch_line data w dir pages) [0..<length pages] @
                         [Done (length pages)]\<rparr>"
    by (rule run_result)
next
  assume "tryPage data w (dir_after data w dir pre) page = Inl e"
  then show "dir_after data w dir (pre @ page # post) = dir_after data w dir (pre @ post)"
    by (rule dir_after_without_failure)
next
  fix k
  assume "k < length pre"
  then show "batch_line data w dir (pre @ page # post) k = batch_line data w dir (pre @ post) k"
    by (simp add: batch_line_before)
next
  assume "tryPage data w (dir_after data w dir pre) page = Inl e"
  then show "batch_line data w dir (pre @ page # post) (length pre) = ErrorConverting (length pre) e"
    by (rule batch_line_failure)
next
  fix k
  assume "tryPage data w (dir_after data w dir pre) page = Inl e" and "k < length post"
  then show "batch_line data w dir (pre @ page # post) (Suc (length pre + k)) =
               page_line data w (dir_after data w dir (pre @ take k post))
                 (Suc (length pre + k)) (post ! k)"
    by (rule batch_line_after)
next
  fix k
  assume "k < length post"
  then show "batch_line data w dir (pre @ post) (length pre + k) =
               page_line data w (dir_after data w dir (pre @ take k post))
                 (length pre + k) (post ! k)"
    by (simp add: batch_line_def nth_append)
qed

text \<open>
  An example batch: the page \<open>page_broken\<close> raises in the assembly, the file name of
  \<open>page_long_name\<close> has 256 characters, and the example writer refuses a name of more
  than 255 characters, as a file system with that limit does.
\<close>

definition page_long_name :: "jsval" where
  "page_long_name = entry ''p8'' ''page'' [(''title'', locale_of (JStr (replicate 252 (CHR ''a''))))]"

definition batch_snapshot :: "jsval" where
  "batch_snapshot =
     JObj [(''entries'', JArr [page_intro, block_section_a, page_broken, page_long_name, page_plain]),
           (''assets'', JArr [])]"

definition limited_write :: "writer" where
  "limited_write dir name content =
     (if 255 < length name
      then Inl (SystemError (''ENAMETOOLONG: name too long, open markdown-output/'' @ name))
      else Inr (dir(name \<mapsto> content)))"

theorem failing_page_is_isolated_witness:
  "run batch_snapshot limited_write Map.empty =
     Inr \<lparr>files = dir_after batch_snapshot limited_write Map.empty [page_intro, page_plain],
          console =
            [Found 4, Converted ''Intro'' ''intro.mdx'', ErrorConverting 1 TypeError,
             ErrorConverting 2
               (SystemError (''ENAMETOOLONG: name too long, open markdown-output/'' @
                             replicate 252 (CHR ''a'') @ ''.mdx'')),
             Converted ''T'' ''t.mdx'', Done 4]\<rparr>
   \<and> convertPage batch_snapshot limited_write page_broken 1
         \<lparr>files = Map.empty, console = [Found 4]\<rparr> =
       \<lparr>files = Map.empty, console = [Found 4, ErrorConverting 1 TypeError]\<rparr>"
proof -
  let ?pages = "[page_intro, page_broken, page_long_name, page_plain]"
  let ?msg = "''ENAMETOOLONG: name too long, open markdown-output/'' @
              replicate 252 (CHR ''a'') @ ''.mdx''"
  let ?doc = "''---\<newline>title: '' @ [CHR 0x22] @ replicate 252 (CHR ''a'') @ [CHR 0x22] @
              ''\<newline>---\<newline>\<newline># '' @ replicate 252 (CHR ''a'') @ ''\<newline>\<newline>''"
  let ?st = "\<lparr>files = Map.empty, console = [Found 4]\<rparr>"
  note T = failing_page_is_isolated
  have sel: "selectPages batch_snapshot = Inr ?pages"
    by code_simp
  have broken: "assemblePage batch_snapshot page_broken = Inl TypeError"
    by code_simp
  have long_doc: "assemblePage batch_snapshot page_long_name =
      Inr (replicate 252 (CHR ''a''), replicate 252 (CHR ''a'') @ ''.mdx'', ?doc)"
    by code_simp
  have lines: "map (batch_line batch_snapshot limited_write Map.empty ?pages) [0..<length ?pages] =
               [Converted ''Intro'' ''intro.mdx'', ErrorConverting 1 TypeError,
                ErrorConverting 2 (SystemError ?msg), Converted ''T'' ''t.mdx'']"
    by code_simp
  have tb: "tryPage batch_snapshot limited_write d page_broken = Inl TypeError" for d
    using T [where data = batch_snapshot and page = page_broken and e = TypeError
               and w = limited_write and d = d, THEN conjunct1] broken
    by (rule mp)
  have "assemblePage batch_snapshot page_long_name =
          Inr (replicate 252 (CHR ''a''), replicate 252 (CHR ''a'') @ ''.mdx'', ?doc)
        \<and> limited_write d (replicate 252 (CHR ''a'') @ ''.mdx'') ?doc = Inl (SystemError ?msg)" for d
    using long_doc by (simp add: limited_write_def)
  then have tl: "tryPage batch_snapshot limited_write d page_long_name = Inl (SystemError ?msg)" for d
    using T [where data = batch_snapshot and page = page_long_name and e = "SystemError ?msg"
               and w = limited_write and d = d and title = "replicate 252 (CHR ''a'')"
               and filename = "replicate 252 (CHR ''a'') @ ''.mdx''" and markdown = ?doc,
             THEN conjunct2, THEN conjunct1]
    by blast
  have "convertPage batch_snapshot limited_write page_broken 1 ?st =
          ?st\<lparr>console := console ?st @ [ErrorConverting 1 TypeError]\<rparr>"
    using T [where data = batch_snapshot and page = page_broken and e = TypeError
               and w = limited_write and st = ?st and index = 1,
             THEN conjunct2, THEN conjunct2, THEN conjunct1] tb
    by (rule mp)
  then have c1: "convertPage batch_snapshot limited_write page_broken 1 ?st =
                   \<lparr>files = Map.empty, console = [Found 4, ErrorConverting 1 TypeError]\<rparr>"
    by simp
  have d1: "dir_after batch_snapshot limited_write Map.empty
              ([page_intro, page_broken] @ page_long_name # [page_plain]) =
            dir_after batch_snapshot limited_write Map.empty ([page_intro, page_broken] @ [page_plain])"
    using T [where data = batch_snapshot and page = page_long_name and e = "SystemError ?msg"
               and w = limited_write and dir = Map.empty and pre = "[page_intro, page_broken]"
               and post = "[page_plain]",
             THEN conjunct2, THEN conjunct2, THEN conjunct2, THEN conjunct2] tl
    by blast
  have d2: "dir_after batch_snapshot limited_write Map.empty
              ([page_intro] @ page_broken # [page_plain]) =
            dir_after batch_snapshot limited_write Map.empty ([page_intro] @ [page_plain])"
    using T [where data = batch_snapshot and page = page_broken and e = TypeError
               and w = limited_write and dir = Map.empty and pre = "[page_intro]"
               and post = "[page_plain]",
             THEN conjunct2, THEN conjunct2, THEN conjunct2, THEN conjunct2] tb
    by blast
  have d: "dir_after batch_snapshot limited_write Map.empty ?pages =
           dir_after batch_snapshot limited_write Map.empty [page_intro, page_plain]"
    using d1 d2 by simp
  have "run batch_snapshot limited_write Map.empty =
          Inr \<lparr>files = dir_after batch_snapshot limited_write Map.empty ?pages,
               console = Found (length ?pages) #
                         map (batch_line batch_snapshot limited_write Map.empty ?pages)
                           [0..<length ?pages] @
                         [Done (length ?pages)]\<rparr>"
    using T [where data = batch_snapshot and w = limited_write and dir = Map.empty
               and pages = ?pages,
             THEN conjunct2, THEN conjunct2, THEN conjunct2, THEN conjunct1] sel
    by (rule mp)
  then have c2: "run batch_snapshot limited_write Map.empty =
     Inr \<lparr>files = dir_after batch_snapshot limited_write Map.empty [page_intro, page_plain],
          console =
            [Found 4, Converted ''Intro'' ''intro.mdx'', ErrorConverting 1 TypeError,
             ErrorConverting 2 (SystemError ?msg), Converted ''T'' ''t.mdx'', Done 4]\<rparr>"
    unfolding lines d by simp
  from c2 c1 show ?thesis by (rule conjI)
qed

end
